theory Spec2Isabelle
  imports Main "HOL-Library.AList" "HOL-Library.Char_ord" "HOL-Library.List_Lexorder"
begin

section \<open>The TDC ADMET download stage (\<^verbatim>\<open>stages/01_download_build.py\<close>)\<close>

text \<open>
  The stage is one procedure, \<^verbatim>\<open>main\<close>: two loops over fixed lists of dataset names
  (fetch, annotate, rename the columns, write one file per dataset, accumulate), a combine
  step, and a report that reads the output directory back. The model threads an explicit
  state (the directory \<^verbatim>\<open>brick/\<close>, the console, the list \<^verbatim>\<open>all_datasets\<close>) through
  these steps. The data service, the disk and the text form of a cell value are not code of
  this program; they are the fields of an environment record.
\<close>

subsection \<open>Python strings\<close>

text \<open>
  A Python \<^verbatim>\<open>str\<close> is modelled as a \<open>string\<close> whose characters are the code points
  below 256. \<^verbatim>\<open>str.strip()\<close> removes the characters for which \<^verbatim>\<open>isspace\<close>
  holds (9-13, 28-32, 133, 160 in this range) from both ends; \<^verbatim>\<open>str.lower()\<close> maps
  A-Z and the upper-case letters 192-222 (215, the multiplication sign, apart) 32 places up.
\<close>

definition is_space :: "char \<Rightarrow> bool" where
  "is_space c =
     (let n = (of_char c :: nat)
      in (9 \<le> n \<and> n \<le> 13) \<or> (28 \<le> n \<and> n \<le> 32) \<or> n = 133 \<or> n = 160)"

definition strip :: "string \<Rightarrow> string" where
  "strip s = rev (dropWhile is_space (rev (dropWhile is_space s)))"

definition lower_char :: "char \<Rightarrow> char" where
  "lower_char c =
     (let n = (of_char c :: nat)
      in if (65 \<le> n \<and> n \<le> 90) \<or> (192 \<le> n \<and> n \<le> 222 \<and> n \<noteq> 215)
         then char_of (n + 32) else c)"

definition lower :: "string \<Rightarrow> string" where
  "lower s = map lower_char s"

definition replace_char :: "char \<Rightarrow> char \<Rightarrow> string \<Rightarrow> string" where
  "replace_char a b s = map (\<lambda>c. if c = a then b else c) s"

text \<open>
  Line 72 and line 96:
  \<^verbatim>\<open>str(c).strip().lower().replace(' ', '_').replace('-', '_')\<close>.
  A column label is identified with its \<^verbatim>\<open>str()\<close> form, so \<^verbatim>\<open>str(c)\<close> is the
  identity here.
\<close>

definition normalize_column :: "string \<Rightarrow> string" where
  "normalize_column c =
     replace_char (CHR ''-'') (CHR ''_'')
       (replace_char (CHR '' '') (CHR ''_'') (lower (strip c)))"

text \<open>What the three character-wise steps of the renaming do to one character.\<close>

definition norm_char :: "char \<Rightarrow> char" where
  "norm_char c =
     (let l = lower_char c in if l = CHR '' '' \<or> l = CHR ''-'' then CHR ''_'' else l)"

text \<open>The decimal form of a natural number, as an f-string prints \<^verbatim>\<open>len(df)\<close>.\<close>

function str_nat :: "nat \<Rightarrow> string" where
  "str_nat n =
     (if n < 10 then [char_of (48 + n)]
      else str_nat (n div 10) @ [char_of (48 + n mod 10)])"
  by pat_completeness auto
termination
  by (relation "measure (\<lambda>n. n)") auto

declare str_nat.simps [simp del]

definition ends_with :: "string \<Rightarrow> string \<Rightarrow> bool" where
  "ends_with suf s =
     (length suf \<le> length s \<and> drop (length s - length suf) s = suf)"

subsection \<open>Tables\<close>

text \<open>
  A cell is a text, another value (number, boolean, object) or the missing-value marker
  NaN that \<^verbatim>\<open>pd.concat\<close> fills in. A table is a pandas \<^verbatim>\<open>DataFrame\<close>: a row index
  and the columns in order, each a label with one cell per row; \<^verbatim>\<open>len(df)\<close> is the
  length of the index.
\<close>

datatype 'v cell = Text string | Val 'v | NaN

record 'v table =
  index :: "int list"
  cols :: "(string \<times> 'v cell list) list"

definition nrows :: "'v table \<Rightarrow> nat" where
  "nrows df = length (index df)"

definition labels :: "'v table \<Rightarrow> string list" where
  "labels df = map fst (cols df)"

definition range_index :: "nat \<Rightarrow> int list" where
  "range_index n = map int [0..<n]"

definition wf_table :: "'v table \<Rightarrow> bool" where
  "wf_table df = list_all (\<lambda>(c, xs). length xs = nrows df) (cols df)"

text \<open>
  \<^verbatim>\<open>df[c] = v\<close> for a scalar \<^verbatim>\<open>v\<close>: a column labelled \<^verbatim>\<open>c\<close> is overwritten
  where it stands, otherwise the column is appended as the last one.
\<close>

definition set_scalar :: "string \<Rightarrow> 'v cell \<Rightarrow> 'v table \<Rightarrow> 'v table" where
  "set_scalar c v df =
     (let col = replicate (nrows df) v
      in if c \<in> set (labels df)
         then df\<lparr>cols := map (\<lambda>(n, xs). if n = c then (n, col) else (n, xs)) (cols df)\<rparr>
         else df\<lparr>cols := cols df @ [(c, col)]\<rparr>)"

text \<open>\<^verbatim>\<open>df.columns = [f(c) for c in df.columns]\<close>\<close>

definition rename_columns :: "(string \<Rightarrow> string) \<Rightarrow> 'v table \<Rightarrow> 'v table" where
  "rename_columns f df = df\<lparr>cols := map (\<lambda>(n, xs). (f n, xs)) (cols df)\<rparr>"

text \<open>
  \<^verbatim>\<open>df[cs].copy()\<close> for a list of labels: for each label in turn, the columns that carry
  it. The caller passes labels of \<open>df\<close> only, so the \<^verbatim>\<open>KeyError\<close> of a missing label
  does not arise.
\<close>

definition select_cols :: "string list \<Rightarrow> 'v table \<Rightarrow> 'v table" where
  "select_cols cs df =
     df\<lparr>cols := concat (map (\<lambda>c. filter (\<lambda>(n, xs). n = c) (cols df)) cs)\<rparr>"

text \<open>The column under a label, and its cells or NaN in every row when it is absent.\<close>

definition column :: "'v table \<Rightarrow> string \<Rightarrow> 'v cell list option" where
  "column df c = map_of (cols df) c"

definition column_or_nan :: "'v table \<Rightarrow> string \<Rightarrow> 'v cell list" where
  "column_or_nan df c =
     (case column df c of Some xs \<Rightarrow> xs | None \<Rightarrow> replicate (nrows df) NaN)"

text \<open>The labels of a list of frames in the order of their first appearance.\<close>

fun uniq :: "'a list \<Rightarrow> 'a list \<Rightarrow> 'a list" where
  "uniq seen [] = seen"
| "uniq seen (x # xs) = (if x \<in> set seen then uniq seen xs else uniq (seen @ [x]) xs)"

text \<open>
  \<^verbatim>\<open>pd.concat(frames, ignore_index=True)\<close>: the rows of the frames one after the other
  under the union of their labels, a frame without a label contributing NaN, and a new
  index 0, 1, ... An empty list of frames raises \<^verbatim>\<open>ValueError\<close>; frames with a
  repeated label cannot be aligned and raise \<^verbatim>\<open>InvalidIndexError\<close>.
\<close>

definition pd_concat :: "'v table list \<Rightarrow> string + 'v table" where
  "pd_concat frames =
     (if frames = [] then Inl ''No objects to concatenate''
      else if \<not> list_all (\<lambda>f. distinct (labels f)) frames
      then Inl ''Reindexing only valid with uniquely valued Index objects''
      else Inr \<lparr>index = range_index (sum_list (map nrows frames)),
                cols = map (\<lambda>c. (c, concat (map (\<lambda>f. column_or_nan f c) frames)))
                         (uniq [] (concat (map labels frames)))\<rparr>)"

subsection \<open>The environment and the state\<close>

datatype category = ADME | Tox

text \<open>
  A file of the output directory is a parquet file holding a table, or something
  \<^verbatim>\<open>pd.read_parquet\<close> raises on (with that description).
\<close>

datatype 'v disk_file = Parquet "'v table" | Unreadable string

text \<open>
  What a call raises, with its description \<^verbatim>\<open>str(e)\<close>: an instance of
  \<^verbatim>\<open>Exception\<close>, which \<^verbatim>\<open>except Exception\<close> catches, or another
  \<^verbatim>\<open>BaseException\<close> (\<^verbatim>\<open>SystemExit\<close>, \<^verbatim>\<open>KeyboardInterrupt\<close>,
  \<^verbatim>\<open>GeneratorExit\<close>), which it does not catch.
\<close>

datatype raised = Exception string | BaseException string

text \<open>
  \<open>provider\<close> is \<^verbatim>\<open>ADME(name=name).get_data()\<close> and \<^verbatim>\<open>Tox(name=name).get_data()\<close>:
  a table, or what the call raises. \<open>write_error\<close> is what the disk and the parquet
  engine raise for a path and a table, if anything. \<open>mkdir_error\<close> is the description of
  what \<^verbatim>\<open>brick_path.mkdir(exist_ok=True)\<close> raises, if anything. \<open>str_of\<close> is
  \<^verbatim>\<open>str\<close> on a cell value that is no text.
\<close>

record 'v env =
  provider :: "category \<Rightarrow> string \<Rightarrow> raised + 'v table"
  write_error :: "string \<Rightarrow> 'v table \<Rightarrow> raised option"
  mkdir_error :: "string option"
  str_of :: "'v \<Rightarrow> string"

record 'v state =
  brick :: "(string \<times> 'v disk_file) list"
  console :: "string list"
  all_datasets :: "'v table list"

definition print :: "string \<Rightarrow> 'v state \<Rightarrow> 'v state" where
  "print line st = st\<lparr>console := console st @ [line]\<rparr>"

definition rule60 :: string where
  "rule60 = replicate 60 (CHR ''='')"

definition nl :: char where
  "nl = CHR 0x0A"

text \<open>
  \<^verbatim>\<open>df.to_parquet(path, index=False)\<close>. The engine refuses a table with a repeated
  column label (a \<^verbatim>\<open>ValueError\<close>); any other failure is the environment's. A failed
  write leaves the directory as it was. The index is not stored: read back, the table has
  the index 0, 1, ...
\<close>

definition drop_index :: "'v table \<Rightarrow> 'v table" where
  "drop_index df = df\<lparr>index := range_index (nrows df)\<rparr>"

definition to_parquet ::
  "'v env \<Rightarrow> string \<Rightarrow> 'v table \<Rightarrow> (string \<times> 'v disk_file) list \<Rightarrow> raised + (string \<times> 'v disk_file) list" where
  "to_parquet env path df fs =
     (if \<not> distinct (labels df) then Inl (Exception ''Duplicate column names found'')
      else case write_error env path df of
             Some e \<Rightarrow> Inl e
           | None \<Rightarrow> Inr (AList.update path (Parquet (drop_index df)) fs))"

definition read_parquet :: "(string \<times> 'v disk_file) list \<Rightarrow> string \<Rightarrow> string + 'v table" where
  "read_parquet fs path =
     (case map_of fs path of
        None \<Rightarrow> Inl ''No such file or directory''
      | Some (Unreadable e) \<Rightarrow> Inl e
      | Some (Parquet df) \<Rightarrow> Inr df)"

subsection \<open>The fetch and write loops (lines 63-105)\<close>

definition adme_datasets :: "string list" where
  "adme_datasets =
     [''Caco2_Wang'', ''PAMPA_NCATS'', ''HIA_Hou'', ''Pgp_Broccatelli'',
      ''Bioavailability_Ma'', ''Lipophilicity_AstraZeneca'', ''Solubility_AqSolDB'',
      ''HydrationFreeEnergy_FreeSolv'', ''CYP2C19_Veith'', ''CYP2D6_Veith'',
      ''CYP3A4_Veith'', ''CYP1A2_Veith'', ''CYP2C9_Veith'',
      ''CYP2C9_Substrate_CarbonMangels'', ''CYP2D6_Substrate_CarbonMangels'',
      ''CYP3A4_Substrate_CarbonMangels'', ''Half_Life_Obach'',
      ''Clearance_Hepatocyte_AZ'', ''Clearance_Microsome_AZ'', ''PPBR_AZ'',
      ''VDss_Lombardo'', ''BBB_Martins'']"

definition tox_datasets :: "string list" where
  "tox_datasets =
     [''hERG'', ''hERG_Karim'', ''AMES'', ''DILI'', ''Skin_Reaction'',
      ''Carcinogens_Lagunin'', ''ClinTox'', ''LD50_Zhu'']"

fun category_tag :: "category \<Rightarrow> string" where
  "category_tag ADME = ''ADME''"
| "category_tag Tox = ''Toxicity''"

fun category_slash :: "category \<Rightarrow> string" where
  "category_slash ADME = ''ADME/''"
| "category_slash Tox = ''Tox/''"

fun path_prefix :: "category \<Rightarrow> string" where
  "path_prefix ADME = ''adme_''"
| "path_prefix Tox = ''tox_''"

definition output_name :: "category \<Rightarrow> string \<Rightarrow> string" where
  "output_name cat name = path_prefix cat @ lower name @ ''.parquet''"

definition processing_line :: "category \<Rightarrow> string \<Rightarrow> string" where
  "processing_line cat name = nl # ''Processing '' @ category_slash cat @ name @ ''...''"

definition error_line :: "string \<Rightarrow> string" where
  "error_line e = ''  - Error: '' @ e"

definition saved_line :: "nat \<Rightarrow> string \<Rightarrow> string" where
  "saved_line n file = ''  - Saved '' @ str_nat n @ '' records to brick/'' @ file"

text \<open>Lines 68-72 (and 92-96): the two new columns, then the renaming of every column.\<close>

definition annotate :: "category \<Rightarrow> string \<Rightarrow> 'v table \<Rightarrow> 'v table" where
  "annotate cat name df =
     rename_columns normalize_column
       (set_scalar ''category'' (Text (category_tag cat))
          (set_scalar ''dataset'' (Text name) df))"

text \<open>
  One iteration of a loop. The body of the \<^verbatim>\<open>try\<close> raises at the provider call or at
  the write. \<^verbatim>\<open>except Exception as e\<close> catches an \<^verbatim>\<open>Exception\<close>, prints its
  description and lets the loop go on; any other \<^verbatim>\<open>BaseException\<close> escapes the
  iteration. The result is the state and the exception that escapes, if any.
\<close>

definition process_item ::
  "'v env \<Rightarrow> category \<Rightarrow> string \<Rightarrow> 'v state \<Rightarrow> 'v state \<times> raised option" where
  "process_item env cat name st0 =
     (let st = print (processing_line cat name) st0
      in case provider env cat name of
           Inl (Exception e) \<Rightarrow> (print (error_line e) st, None)
         | Inl (BaseException e) \<Rightarrow> (st, Some (BaseException e))
         | Inr data \<Rightarrow>
             (let df = annotate cat name data;
                  output_file = output_name cat name
              in case to_parquet env output_file df (brick st) of
                   Inl (Exception e) \<Rightarrow> (print (error_line e) st, None)
                 | Inl (BaseException e) \<Rightarrow> (st, Some (BaseException e))
                 | Inr fs \<Rightarrow>
                     (let st1 = print (saved_line (nrows df) output_file) (st\<lparr>brick := fs\<rparr>)
                      in (st1\<lparr>all_datasets := all_datasets st1 @ [df]\<rparr>, None))))"

text \<open>
  \<^verbatim>\<open>for name in names: ...\<close>: the iterations in list order; an exception that escapes
  an iteration ends the loop and escapes it.
\<close>

fun for_each ::
  "('a \<Rightarrow> 's \<Rightarrow> 's \<times> raised option) \<Rightarrow> 'a list \<Rightarrow> 's \<Rightarrow> 's \<times> raised option" where
  "for_each body [] st = (st, None)"
| "for_each body (x # xs) st =
     (case body x st of
        (st1, Some e) \<Rightarrow> (st1, Some e)
      | (st1, None) \<Rightarrow> for_each body xs st1)"

definition banner :: "string \<Rightarrow> 'v state \<Rightarrow> 'v state" where
  "banner title st = print rule60 (print title (print rule60 st))"

definition banner_nl :: "string \<Rightarrow> 'v state \<Rightarrow> 'v state" where
  "banner_nl title st = print rule60 (print title (print (nl # rule60) st))"

text \<open>
  Lines 19 and 59-105: the two loops. \<open>fetch_loops\<close> gives the state when they end and
  the exception that ends them early, if any; \<open>fetch_all\<close> is that state.
\<close>

definition fetch_loops ::
  "'v env \<Rightarrow> string list \<Rightarrow> string list \<Rightarrow> (string \<times> 'v disk_file) list
     \<Rightarrow> 'v state \<times> raised option" where
  "fetch_loops env adme tox fs0 =
     (let st0 = \<lparr>brick = fs0, console = [], all_datasets = []\<rparr>;
          st1 = banner ''Downloading ADME datasets from TDC...'' st0
      in case for_each (process_item env ADME) adme st1 of
           (st2, Some e) \<Rightarrow> (st2, Some e)
         | (st2, None) \<Rightarrow>
             for_each (process_item env Tox) tox
               (banner_nl ''Downloading Toxicity datasets from TDC...'' st2))"

definition fetch_all ::
  "'v env \<Rightarrow> string list \<Rightarrow> string list \<Rightarrow> (string \<times> 'v disk_file) list \<Rightarrow> 'v state" where
  "fetch_all env adme tox fs0 = fst (fetch_loops env adme tox fs0)"

subsection \<open>The combiner (lines 107-129)\<close>

definition cols_to_keep :: "string list" where
  "cols_to_keep = [''drug_id'', ''drug'', ''y'', ''dataset'', ''category'']"

definition available_cols :: "'v table \<Rightarrow> string list" where
  "available_cols df = filter (\<lambda>c. c \<in> set (labels df)) cols_to_keep"

text \<open>
  \<^verbatim>\<open>astype(str)\<close> on one cell: a text stays, another value becomes its \<^verbatim>\<open>str\<close>,
  the missing value becomes the text \<^verbatim>\<open>nan\<close>.
\<close>

fun astype_str :: "('v \<Rightarrow> string) \<Rightarrow> 'v cell \<Rightarrow> 'v cell" where
  "astype_str f (Text s) = Text s"
| "astype_str f (Val v) = Text (f v)"
| "astype_str f NaN = Text ''nan''"

definition drug_id_to_str :: "'v env \<Rightarrow> 'v table \<Rightarrow> 'v table" where
  "drug_id_to_str env sub =
     (if ''drug_id'' \<in> set (labels sub)
      then sub\<lparr>cols := map (\<lambda>(n, xs). if n = ''drug_id''
                                         then (n, map (astype_str (str_of env)) xs)
                                         else (n, xs)) (cols sub)\<rparr>
      else sub)"

definition summary_step :: "'v env \<Rightarrow> 'v table \<Rightarrow> 'v table list \<Rightarrow> 'v table list" where
  "summary_step env df summary_data =
     (let available = available_cols df
      in if available \<noteq> []
         then summary_data @ [drug_id_to_str env (select_cols available df)]
         else summary_data)"

definition combined_file :: string where
  "combined_file = ''tdc_admet_combined.parquet''"

definition combined_line :: "nat \<Rightarrow> string" where
  "combined_line n = nl # ''Combined dataset: '' @ str_nat n @ '' total records''"

text \<open>
  The combiner returns the state and the exception that escapes it, if any: neither
  \<^verbatim>\<open>pd.concat\<close> nor the write of the combined file is inside a \<^verbatim>\<open>try\<close>.
\<close>

definition combiner :: "'v env \<Rightarrow> 'v state \<Rightarrow> 'v state \<times> raised option" where
  "combiner env st0 =
     (let st = banner_nl ''Creating combined dataset...'' st0
      in if all_datasets st \<noteq> []
         then (let summary_data = fold (summary_step env) (all_datasets st) []
               in if summary_data \<noteq> []
                  then (case pd_concat summary_data of
                          Inl e \<Rightarrow> (st, Some (Exception e))
                        | Inr combined \<Rightarrow>
                            (case to_parquet env combined_file combined (brick st) of
                               Inl e \<Rightarrow> (st, Some e)
                             | Inr fs \<Rightarrow>
                                 (print (combined_line (nrows combined)) (st\<lparr>brick := fs\<rparr>),
                                  None)))
                  else (st, None))
         else (st, None))"

subsection \<open>The reporter (lines 131-141)\<close>

text \<open>
  \<^verbatim>\<open>sorted(brick_path.glob("*.parquet"))\<close>: the names of the directory that end in
  \<^verbatim>\<open>.parquet\<close>, each once, in the order of their code points (the order of
  \<open>string\<close> with \<open>List_Lexorder\<close> and \<open>Char_ord\<close>).
\<close>

definition glob_parquet :: "(string \<times> 'v disk_file) list \<Rightarrow> string list" where
  "glob_parquet fs = filter (ends_with ''.parquet'') (remdups (map fst fs))"

definition file_line :: "string \<Rightarrow> nat \<Rightarrow> string" where
  "file_line name n = ''  - '' @ name @ '': '' @ str_nat n @ '' rows''"

definition total_line :: "nat \<Rightarrow> nat \<Rightarrow> string" where
  "total_line total_records n_files =
     nl # ''Total: '' @ str_nat total_records @ '' records across '' @ str_nat n_files
        @ '' files''"

text \<open>The loop of lines 136-139; a failing \<^verbatim>\<open>pd.read_parquet\<close> ends the run.\<close>

fun report_files ::
  "string list \<Rightarrow> nat \<Rightarrow> 'v state \<Rightarrow> (nat \<times> 'v state) \<times> string option" where
  "report_files [] total_records st = ((total_records, st), None)"
| "report_files (f # fs) total_records st =
     (case read_parquet (brick st) f of
        Inl e \<Rightarrow> ((total_records, st), Some e)
      | Inr df \<Rightarrow>
          report_files fs (total_records + nrows df) (print (file_line f (nrows df)) st))"

definition reporter :: "'v state \<Rightarrow> 'v state \<times> string option" where
  "reporter st0 =
     (let st = banner_nl ''Output files:'' st0
      in case report_files (sort (glob_parquet (brick st))) 0 st of
           ((total_records, st1), Some e) \<Rightarrow> (st1, Some e)
         | ((total_records, st1), None) \<Rightarrow>
             (print (total_line total_records (length (glob_parquet (brick st1)))) st1, None))"

subsection \<open>The whole run\<close>

text \<open>
  \<open>run\<close> is the body of \<^verbatim>\<open>main\<close> with the two name lists as parameters; \<open>main\<close>
  is the run on the lists of the source. The result is the last state and the exception
  that ends the run, if any: nothing outside the two loops is inside a \<^verbatim>\<open>try\<close>, and
  what escapes a loop escapes the run. A failing \<^verbatim>\<open>mkdir\<close> or
  \<^verbatim>\<open>pd.read_parquet\<close> is reported as an \<^verbatim>\<open>Exception\<close> with its description.
\<close>

definition run ::
  "'v env \<Rightarrow> string list \<Rightarrow> string list \<Rightarrow> (string \<times> 'v disk_file) list \<Rightarrow> 'v state \<times> raised option" where
  "run env adme tox fs0 =
     (case mkdir_error env of
        Some e \<Rightarrow> (\<lparr>brick = fs0, console = [], all_datasets = []\<rparr>, Some (Exception e))
      | None \<Rightarrow>
          (case fetch_loops env adme tox fs0 of
             (st, Some e) \<Rightarrow> (st, Some e)
           | (st, None) \<Rightarrow>
               (case combiner env st of
                  (st1, Some e) \<Rightarrow> (st1, Some e)
                | (st1, None) \<Rightarrow>
                    (case reporter st1 of (st2, r) \<Rightarrow> (st2, map_option Exception r)))))"

definition main :: "'v env \<Rightarrow> (string \<times> 'v disk_file) list \<Rightarrow> 'v state \<times> raised option" where
  "main env fs0 = run env adme_datasets tox_datasets fs0"

subsection \<open>What the loops and the combiner come to\<close>

text \<open>
  \<open>item_result\<close> is the outcome of the body of the \<^verbatim>\<open>try\<close> for one name: what
  the provider call or the write raises, or the table that is written and appended to
  \<^verbatim>\<open>all_datasets\<close>. \<open>escaping\<close> is the exception that escapes the iteration, if any.
  The functions after them give, for a list of names whose iterations are run, the console
  lines, the accumulated tables, the directory and the files written, in the order of the
  list; \<open>through\<close> is the part of a list whose iterations are run, up to the first one
  that an exception escapes, and \<open>first_escaping\<close> is that exception.
\<close>

definition item_result :: "'v env \<Rightarrow> category \<Rightarrow> string \<Rightarrow> raised + 'v table" where
  "item_result env cat name =
     (case provider env cat name of
        Inl e \<Rightarrow> Inl e
      | Inr data \<Rightarrow>
          (let df = annotate cat name data
           in if \<not> distinct (labels df) then Inl (Exception ''Duplicate column names found'')
              else case write_error env (output_name cat name) df of
                     Some e \<Rightarrow> Inl e
                   | None \<Rightarrow> Inr df))"

definition escaping :: "'v env \<Rightarrow> category \<Rightarrow> string \<Rightarrow> raised option" where
  "escaping env cat name =
     (case item_result env cat name of
        Inl (BaseException e) \<Rightarrow> Some (BaseException e)
      | Inl (Exception e) \<Rightarrow> None
      | Inr df \<Rightarrow> None)"

definition item_lines :: "'v env \<Rightarrow> category \<Rightarrow> string \<Rightarrow> string list" where
  "item_lines env cat name =
     processing_line cat name #
     (case item_result env cat name of
        Inl (Exception e) \<Rightarrow> [error_line e]
      | Inl (BaseException e) \<Rightarrow> []
      | Inr df \<Rightarrow> [saved_line (nrows df) (output_name cat name)])"

fun through :: "'v env \<Rightarrow> category \<Rightarrow> string list \<Rightarrow> string list" where
  "through env cat [] = []"
| "through env cat (n # ns) =
     (if escaping env cat n = None then n # through env cat ns else [n])"

fun first_escaping :: "'v env \<Rightarrow> category \<Rightarrow> string list \<Rightarrow> raised option" where
  "first_escaping env cat [] = None"
| "first_escaping env cat (n # ns) =
     (case escaping env cat n of Some e \<Rightarrow> Some e | None \<Rightarrow> first_escaping env cat ns)"

definition fetched :: "'v env \<Rightarrow> category \<Rightarrow> string list \<Rightarrow> 'v table list" where
  "fetched env cat names =
     concat (map (\<lambda>n. case item_result env cat n of Inl e \<Rightarrow> [] | Inr df \<Rightarrow> [df]) names)"

definition write_item ::
  "'v env \<Rightarrow> category \<Rightarrow> string \<Rightarrow> (string \<times> 'v disk_file) list \<Rightarrow> (string \<times> 'v disk_file) list" where
  "write_item env cat name fs =
     (case item_result env cat name of
        Inl e \<Rightarrow> fs
      | Inr df \<Rightarrow> AList.update (output_name cat name) (Parquet (drop_index df)) fs)"

definition written ::
  "'v env \<Rightarrow> category \<Rightarrow> string list \<Rightarrow> (string \<times> 'v disk_file) list" where
  "written env cat names =
     concat (map (\<lambda>n. case item_result env cat n of
                          Inl e \<Rightarrow> []
                        | Inr df \<Rightarrow> [(output_name cat n, Parquet (drop_index df))]) names)"

text \<open>The list a category is looped over, and the console lines that open an iteration.\<close>

fun dataset_list :: "category \<Rightarrow> string list" where
  "dataset_list ADME = adme_datasets"
| "dataset_list Tox = tox_datasets"

definition is_processing :: "string \<Rightarrow> bool" where
  "is_processing line = (take 12 line = nl # ''Processing '')"

text \<open>
  The projection that the combiner takes of one table, the tables it does not skip and the
  table it writes for an accumulator of tables with distinct labels.
\<close>

definition projection :: "'v env \<Rightarrow> 'v table \<Rightarrow> 'v table" where
  "projection env df = drug_id_to_str env (select_cols (available_cols df) df)"

definition kept :: "'v table list \<Rightarrow> 'v table list" where
  "kept acc = filter (\<lambda>df. available_cols df \<noteq> []) acc"

definition combined_table :: "'v env \<Rightarrow> 'v table list \<Rightarrow> 'v table" where
  "combined_table env acc =
     \<lparr>index = range_index (sum_list (map nrows (kept acc))),
      cols = map (\<lambda>c. (c, concat (map (\<lambda>df. column_or_nan (projection env df) c) (kept acc))))
               (uniq [] (concat (map available_cols (kept acc))))\<rparr>"

fun is_text :: "'v cell \<Rightarrow> bool" where
  "is_text (Text s) = True"
| "is_text (Val v) = False"
| "is_text NaN = False"

subsection \<open>What the reporter reads\<close>

text \<open>
  The row count of a file, the description of the exception when reading it raises, the
  first such exception along a list of files, the lines printed for the files before it,
  the row count of a file's table, and a column of a file that reads as a table.
\<close>

definition rows_on_disk :: "(string \<times> 'v disk_file) list \<Rightarrow> string \<Rightarrow> nat" where
  "rows_on_disk fs f = (case read_parquet fs f of Inl e \<Rightarrow> 0 | Inr df \<Rightarrow> nrows df)"

definition read_error :: "(string \<times> 'v disk_file) list \<Rightarrow> string \<Rightarrow> string option" where
  "read_error fs f = (case read_parquet fs f of Inl e \<Rightarrow> Some e | Inr df \<Rightarrow> None)"

definition readable :: "(string \<times> 'v disk_file) list \<Rightarrow> string \<Rightarrow> bool" where
  "readable fs f = (read_error fs f = None)"

definition first_read_error :: "(string \<times> 'v disk_file) list \<Rightarrow> string list \<Rightarrow> string option" where
  "first_read_error fs files =
     (case dropWhile (readable fs) files of [] \<Rightarrow> None | f # rest \<Rightarrow> read_error fs f)"

definition report_lines :: "(string \<times> 'v disk_file) list \<Rightarrow> string list \<Rightarrow> string list" where
  "report_lines fs files =
     [nl # rule60, ''Output files:'', rule60]
     @ map (\<lambda>f. file_line f (rows_on_disk fs f)) (takeWhile (readable fs) files)"

fun file_rows :: "'v disk_file \<Rightarrow> nat" where
  "file_rows (Parquet df) = nrows df"
| "file_rows (Unreadable e) = 0"

definition read_column ::
  "(string \<times> 'v disk_file) list \<Rightarrow> string \<Rightarrow> string \<Rightarrow> 'v cell list option" where
  "read_column fs path c = (case read_parquet fs path of Inl e \<Rightarrow> None | Inr t \<Rightarrow> column t c)"

subsection \<open>Mocked providers and states\<close>

text \<open>
  A mocked provider: the table \<open>t\<close> for the ADME name \<^verbatim>\<open>Caco2_Wang\<close>, an
  \<^verbatim>\<open>Exception\<close> described by \<open>e\<close> for every other name; \<open>w\<close> is what the writes
  raise. \<open>scenario_table\<close> has three rows and the columns \<^verbatim>\<open>Drug_ID\<close>,
  \<^verbatim>\<open>Drug\<close>, \<^verbatim>\<open>Y\<close>; \<open>scenario_file\<close> is the file written for it, the three
  columns under their renamed labels and the two annotation columns. \<open>mock_env\<close> is an
  instance with fixed cells (identifiers and structures as texts, labels as numbers) whose
  writes raise nothing, \<open>mock_annotated\<close> its file.
\<close>

definition scenario_table :: "'v cell list \<Rightarrow> 'v cell list \<Rightarrow> 'v cell list \<Rightarrow> 'v table" where
  "scenario_table ids drugs ys =
     \<lparr>index = [0, 1, 2], cols = [(''Drug_ID'', ids), (''Drug'', drugs), (''Y'', ys)]\<rparr>"

definition scenario_env ::
  "('v \<Rightarrow> string) \<Rightarrow> string \<Rightarrow> (string \<Rightarrow> 'v table \<Rightarrow> raised option) \<Rightarrow> 'v table \<Rightarrow> 'v env" where
  "scenario_env f e w t =
     \<lparr>provider = (\<lambda>cat n. if cat = ADME \<and> n = ''Caco2_Wang'' then Inr t
                          else Inl (Exception e)),
      write_error = w, mkdir_error = None, str_of = f\<rparr>"

definition scenario_file :: "'v cell list \<Rightarrow> 'v cell list \<Rightarrow> 'v cell list \<Rightarrow> 'v table" where
  "scenario_file ids drugs ys =
     \<lparr>index = [0, 1, 2],
      cols = [(''drug_id'', ids), (''drug'', drugs), (''y'', ys),
              (''dataset'', [Text ''Caco2_Wang'', Text ''Caco2_Wang'', Text ''Caco2_Wang'']),
              (''category'', [Text ''ADME'', Text ''ADME'', Text ''ADME''])]\<rparr>"

definition mock_table :: "nat table" where
  "mock_table =
     scenario_table [Text ''D1'', Text ''D2'', Text ''D3''] [Text ''C'', Text ''CC'', Text ''CCO'']
       [Val 1, Val 0, Val 1]"

definition mock_env :: "nat env" where
  "mock_env = scenario_env str_nat ''fetch failed'' (\<lambda>p df. None) mock_table"

definition mock_annotated :: "nat table" where
  "mock_annotated =
     \<lparr>index = [0, 1, 2],
      cols = [(''drug_id'', [Text ''D1'', Text ''D2'', Text ''D3'']),
              (''drug'', [Text ''C'', Text ''CC'', Text ''CCO'']),
              (''y'', [Val 1, Val 0, Val 1]),
              (''dataset'', [Text ''Caco2_Wang'', Text ''Caco2_Wang'', Text ''Caco2_Wang'']),
              (''category'', [Text ''ADME'', Text ''ADME'', Text ''ADME''])]\<rparr>"

text \<open>A table without any of the five projected columns, and two states of the combiner.\<close>

definition unprojected_table :: "nat table" where
  "unprojected_table = \<lparr>index = [0, 1], cols = [(''smiles'', [Text ''C'', Text ''N''])]\<rparr>"

definition mock_state :: "nat state" where
  "mock_state = \<lparr>brick = [], console = [], all_datasets = [mock_annotated, unprojected_table]\<rparr>"

definition empty_state :: "nat state" where
  "empty_state = \<lparr>brick = [], console = [], all_datasets = []\<rparr>"

text \<open>
  A second mocked provider: an ADME table with a \<^verbatim>\<open>Drug_ID\<close> column for
  \<^verbatim>\<open>Caco2_Wang\<close>, a Toxicity table without one for \<^verbatim>\<open>hERG\<close>, a failure for
  every other name. \<open>mixed_adme\<close> and \<open>mixed_tox\<close> are the two tables as annotated.
\<close>

definition mixed_env :: "nat env" where
  "mixed_env =
     \<lparr>provider = (\<lambda>cat n.
         if cat = ADME \<and> n = ''Caco2_Wang''
         then Inr \<lparr>index = [0], cols = [(''Drug_ID'', [Val 7]), (''Y'', [Val 1])]\<rparr>
         else if cat = Tox \<and> n = ''hERG''
         then Inr \<lparr>index = [0], cols = [(''Drug'', [Text ''CCO'']), (''Y'', [Val 0])]\<rparr>
         else Inl (Exception ''fetch failed'')),
      write_error = (\<lambda>p df. None), mkdir_error = None, str_of = str_nat\<rparr>"

definition mixed_adme :: "nat table" where
  "mixed_adme =
     \<lparr>index = [0],
      cols = [(''drug_id'', [Val 7]), (''y'', [Val 1]), (''dataset'', [Text ''Caco2_Wang'']),
              (''category'', [Text ''ADME''])]\<rparr>"

definition mixed_tox :: "nat table" where
  "mixed_tox =
     \<lparr>index = [0],
      cols = [(''drug'', [Text ''CCO'']), (''y'', [Val 0]), (''dataset'', [Text ''hERG'']),
              (''category'', [Text ''Toxicity''])]\<rparr>"

text \<open>
  A third mocked provider, whose tables already have a column that the annotation touches:
  one labelled \<^verbatim>\<open>dataset\<close> for the ADME name \<^verbatim>\<open>Caco2_Wang\<close>, one labelled
  \<^verbatim>\<open>Dataset\<close> for the Toxicity name \<^verbatim>\<open>hERG\<close>.
\<close>

definition overlap_env :: "nat env" where
  "overlap_env =
     \<lparr>provider = (\<lambda>cat n.
         if cat = ADME \<and> n = ''Caco2_Wang''
         then Inr \<lparr>index = [0], cols = [(''Drug'', [Text ''CCO'']), (''dataset'', [Text ''old''])]\<rparr>
         else if cat = Tox \<and> n = ''hERG''
         then Inr \<lparr>index = [0], cols = [(''Drug'', [Text ''CCO'']), (''Dataset'', [Text ''old''])]\<rparr>
         else Inl (Exception ''fetch failed'')),
      write_error = (\<lambda>p df. None), mkdir_error = None, str_of = str_nat\<rparr>"

text \<open>
  A fourth mocked provider: the table of \<open>mock_env\<close> for the ADME name
  \<^verbatim>\<open>Caco2_Wang\<close>, a \<^verbatim>\<open>KeyboardInterrupt\<close> during the call for the next name of the
  list, \<^verbatim>\<open>PAMPA_NCATS\<close>, an \<^verbatim>\<open>Exception\<close> for every other name.
\<close>

definition interrupt_env :: "nat env" where
  "interrupt_env =
     \<lparr>provider = (\<lambda>cat n.
         if cat = ADME \<and> n = ''Caco2_Wang'' then Inr mock_table
         else if cat = ADME \<and> n = ''PAMPA_NCATS'' then Inl (BaseException ''KeyboardInterrupt'')
         else Inl (Exception ''fetch failed'')),
      write_error = (\<lambda>p df. None), mkdir_error = None, str_of = str_nat\<rparr>"

text \<open>
  Two directories for the reporter: two parquet files and a text file, and the same with
  one of the parquet files corrupt.
\<close>

definition report_state :: "nat state" where
  "report_state =
     \<lparr>brick = [(''b.parquet'', Parquet unprojected_table), (''notes.txt'', Unreadable ''no parquet''),
               (''a.parquet'', Parquet mock_annotated)],
      console = [], all_datasets = []\<rparr>"

definition corrupt_state :: "nat state" where
  "corrupt_state =
     \<lparr>brick = [(''b.parquet'', Parquet unprojected_table), (''notes.txt'', Unreadable ''no parquet''),
               (''a.parquet'', Unreadable ''corrupt'')],
      console = [], all_datasets = []\<rparr>"

section \<open>Column-name normalization\<close>

lemma last_dropWhile: "dropWhile P xs \<noteq> [] \<Longrightarrow> last (dropWhile P xs) = last xs"
  by (induction xs) (auto split: if_splits)

lemma strip_ends:
  assumes "strip s \<noteq> []"
  shows "\<not> is_space (hd (strip s)) \<and> \<not> is_space (last (strip s))"
proof -
  define ys where "ys = dropWhile is_space s"
  define zs where "zs = dropWhile is_space (rev ys)"
  have s: "strip s = rev zs" by (simp add: strip_def ys_def zs_def)
  with assms have zs: "zs \<noteq> []" by simp
  then have ys: "ys \<noteq> []" by (auto simp: zs_def)
  have "\<not> is_space (hd zs)" using zs unfolding zs_def by (rule hd_dropWhile)
  moreover have "\<not> is_space (hd ys)" using ys unfolding ys_def by (rule hd_dropWhile)
  moreover have "last zs = last (rev ys)" using zs unfolding zs_def by (rule last_dropWhile)
  ultimately show ?thesis using zs ys by (simp add: s hd_rev last_rev)
qed

lemma strip_fixed:
  assumes "xs = [] \<or> (\<not> is_space (hd xs) \<and> \<not> is_space (last xs))"
  shows "strip xs = xs"
proof (cases xs)
  case Nil
  then show ?thesis by (simp add: strip_def)
next
  case (Cons a as)
  with assms have a: "\<not> is_space a" and l: "\<not> is_space (last xs)" by auto
  have 1: "dropWhile is_space xs = xs" using a Cons by simp
  have "xs = butlast xs @ [last xs]" using Cons by simp
  then have "rev xs = last xs # rev (butlast xs)"
    by (metis rev.simps(2) rev_rev_ident rev_singleton_conv rev_append append_Cons append_Nil)
  then have 2: "dropWhile is_space (rev xs) = rev xs"
    using l by (metis dropWhile.simps(2))
  show ?thesis by (simp add: strip_def 1 2)
qed

lemma normalize_column_map: "normalize_column s = map norm_char (strip s)"
  by (auto simp: normalize_column_def replace_char_def lower_def norm_char_def Let_def)

lemma lower_char_idem: "lower_char (lower_char c) = lower_char c"
  by (auto simp: lower_char_def Let_def)

lemma norm_char_idem: "norm_char (norm_char c) = norm_char c"
  by (auto simp: norm_char_def Let_def lower_char_idem) (auto simp: lower_char_def)

lemma lower_char_not_space: "\<not> is_space c \<Longrightarrow> \<not> is_space (lower_char c)"
  by (auto simp: is_space_def lower_char_def Let_def)

lemma norm_char_not_space: "\<not> is_space c \<Longrightarrow> \<not> is_space (norm_char c)"
  using lower_char_not_space [of c]
  by (auto simp: norm_char_def Let_def) (simp_all add: is_space_def)

text \<open>
  C6. Renaming a column label twice gives the same label as renaming it once: the
  expression of lines 72 and 96 (strip, lower, space to underscore, hyphen to underscore)
  is idempotent on every label.
\<close>

theorem normalize_column_idempotent:
  "normalize_column (normalize_column s) = normalize_column s"
proof -
  let ?t = "map norm_char (strip s)"
  have "?t = [] \<or> (\<not> is_space (hd ?t) \<and> \<not> is_space (last ?t))"
    using strip_ends [of s]
    by (cases "strip s = []") (auto simp: hd_map last_map norm_char_not_space)
  then have "strip ?t = ?t" by (rule strip_fixed)
  then show ?thesis by (simp add: normalize_column_map norm_char_idem)
qed

section \<open>The loops\<close>

lemma process_item_eq:
  "process_item env cat name st =
     (\<lparr>brick = write_item env cat name (brick st),
       console = console st @ item_lines env cat name,
       all_datasets = all_datasets st @ fetched env cat [name]\<rparr>,
      escaping env cat name)"
  by (simp add: process_item_def item_result_def escaping_def item_lines_def fetched_def
      write_item_def to_parquet_def print_def Let_def
      split: sum.splits option.splits raised.splits)

lemma fetched_Cons: "fetched env cat (n # ns) = fetched env cat [n] @ fetched env cat ns"
  by (simp add: fetched_def)

lemma for_each_process_item:
  "for_each (process_item env cat) names st =
     (\<lparr>brick = fold (write_item env cat) (through env cat names) (brick st),
       console = console st @ concat (map (item_lines env cat) (through env cat names)),
       all_datasets = all_datasets st @ fetched env cat (through env cat names)\<rparr>,
      first_escaping env cat names)"
proof (induction names arbitrary: st)
  case Nil
  show ?case by (simp add: fetched_def)
next
  case (Cons n names)
  have p: "process_item env cat n st =
     (\<lparr>brick = write_item env cat n (brick st),
       console = console st @ item_lines env cat n,
       all_datasets = all_datasets st @ fetched env cat [n]\<rparr>,
      escaping env cat n)"
    by (rule process_item_eq)
  show ?case
  proof (cases "escaping env cat n")
    case None
    then show ?thesis
      by (simp add: p Cons.IH fetched_Cons [of env cat n "through env cat names"])
  next
    case (Some e)
    then show ?thesis
      by (simp add: p)
  qed
qed

lemma through_complete: "first_escaping env cat names = None \<Longrightarrow> through env cat names = names"
  by (induction names) (auto split: option.splits)

lemma fetch_loops_eq:
  "fetch_loops env adme tox fs0 =
     (case first_escaping env ADME adme of
        Some e \<Rightarrow>
          (\<lparr>brick = fold (write_item env ADME) (through env ADME adme) fs0,
            console = [rule60, ''Downloading ADME datasets from TDC...'', rule60]
                      @ concat (map (item_lines env ADME) (through env ADME adme)),
            all_datasets = fetched env ADME (through env ADME adme)\<rparr>,
           Some e)
      | None \<Rightarrow>
          (\<lparr>brick = fold (write_item env Tox) (through env Tox tox)
                      (fold (write_item env ADME) adme fs0),
            console = [rule60, ''Downloading ADME datasets from TDC...'', rule60]
                      @ concat (map (item_lines env ADME) adme)
                      @ [nl # rule60, ''Downloading Toxicity datasets from TDC...'', rule60]
                      @ concat (map (item_lines env Tox) (through env Tox tox)),
            all_datasets = fetched env ADME adme @ fetched env Tox (through env Tox tox)\<rparr>,
           first_escaping env Tox tox))"
proof (cases "first_escaping env ADME adme")
  case None
  then show ?thesis
    by (simp add: fetch_loops_def Let_def for_each_process_item through_complete banner_def
        banner_nl_def print_def)
next
  case (Some e)
  then show ?thesis
    by (simp add: fetch_loops_def Let_def for_each_process_item banner_def print_def)
qed

lemma fetch_loops_snd:
  "snd (fetch_loops env adme tox fs0) =
     (case first_escaping env ADME adme of
        Some e \<Rightarrow> Some e
      | None \<Rightarrow> first_escaping env Tox tox)"
  by (simp add: fetch_loops_eq split: option.splits)

lemma fetch_all_accumulator:
  "\<exists>a t. all_datasets (fetch_all env adme tox fs0) = fetched env ADME a @ fetched env Tox t"
proof (cases "first_escaping env ADME adme")
  case None
  then have "all_datasets (fetch_all env adme tox fs0) =
               fetched env ADME adme @ fetched env Tox (through env Tox tox)"
    by (simp add: fetch_all_def fetch_loops_eq)
  then show ?thesis by blast
next
  case (Some e)
  then have "all_datasets (fetch_all env adme tox fs0) =
               fetched env ADME (through env ADME adme) @ fetched env Tox []"
    by (simp add: fetch_all_def fetch_loops_eq fetched_def)
  then show ?thesis by blast
qed

lemma fetch_all_eq:
  assumes "snd (fetch_loops env adme tox fs0) = None"
  shows "fetch_all env adme tox fs0 =
     \<lparr>brick = fold (write_item env Tox) tox (fold (write_item env ADME) adme fs0),
      console = [rule60, ''Downloading ADME datasets from TDC...'', rule60]
                @ concat (map (item_lines env ADME) adme)
                @ [nl # rule60, ''Downloading Toxicity datasets from TDC...'', rule60]
                @ concat (map (item_lines env Tox) tox),
      all_datasets = fetched env ADME adme @ fetched env Tox tox\<rparr>"
proof -
  from assms have a: "first_escaping env ADME adme = None"
    and t: "first_escaping env Tox tox = None"
    by (auto simp: fetch_loops_snd split: option.splits)
  show ?thesis
    by (simp add: fetch_all_def fetch_loops_eq a through_complete [OF t])
qed

lemma never_escaping:
  assumes "\<And>cat n e. provider env cat n \<noteq> Inl (BaseException e)"
    and "\<And>p df e. write_error env p df \<noteq> Some (BaseException e)"
  shows "snd (fetch_loops env adme tox fs0) = None"
proof -
  have "escaping env cat n = None" for cat n
    using assms(1) [of cat n] assms(2) [of "output_name cat n"]
    by (auto simp: escaping_def item_result_def Let_def
        split: sum.splits raised.splits if_splits option.splits)
  then have "first_escaping env cat names = None" for cat names
    by (induction names) simp_all
  then show ?thesis by (simp add: fetch_loops_snd)
qed

lemma fetch_loops_complete:
  assumes "snd (fetch_loops env adme tox fs0) = None"
  shows "fetch_loops env adme tox fs0 = (fetch_all env adme tox fs0, None)"
  using assms by (simp add: fetch_all_def prod_eq_iff)

subsection \<open>Labels\<close>

lemma labels_set_scalar:
  "labels (set_scalar c v df) = (if c \<in> set (labels df) then labels df else labels df @ [c])"
  by (auto simp: set_scalar_def labels_def Let_def split: prod.splits)

lemma nrows_set_scalar: "nrows (set_scalar c v df) = nrows df"
  by (simp add: set_scalar_def nrows_def Let_def)

lemma labels_rename_columns: "labels (rename_columns f df) = map f (labels df)"
  by (simp add: rename_columns_def labels_def comp_def case_prod_beta)

lemma nrows_rename_columns: "nrows (rename_columns f df) = nrows df"
  by (simp add: rename_columns_def nrows_def)

lemma normalize_dataset: "normalize_column ''dataset'' = ''dataset''"
  by (simp add: normalize_column_def strip_def is_space_def lower_def lower_char_def
      replace_char_def)

lemma normalize_category: "normalize_column ''category'' = ''category''"
  by (simp add: normalize_column_def strip_def is_space_def lower_def lower_char_def
      replace_char_def)

lemma nrows_annotate: "nrows (annotate cat name df) = nrows df"
  by (simp add: annotate_def nrows_rename_columns nrows_set_scalar)

lemma annotate_has_dataset: "''dataset'' \<in> set (labels (annotate cat name df))"
proof -
  have "''dataset'' \<in> set (labels (set_scalar ''category'' w (set_scalar ''dataset'' v df)))" for v w
    by (simp add: labels_set_scalar)
  then have "normalize_column ''dataset'' \<in> normalize_column ` set (labels (set_scalar ''category'' w (set_scalar ''dataset'' v df)))" for v w
    by (rule imageI)
  then show ?thesis by (simp add: annotate_def labels_rename_columns normalize_dataset)
qed

lemma annotate_has_category: "''category'' \<in> set (labels (annotate cat name df))"
proof -
  have "''category'' \<in> set (labels (set_scalar ''category'' w (set_scalar ''dataset'' v df)))" for v w
    by (simp add: labels_set_scalar)
  then have "normalize_column ''category'' \<in> normalize_column ` set (labels (set_scalar ''category'' w (set_scalar ''dataset'' v df)))" for v w
    by (rule imageI)
  then show ?thesis by (simp add: annotate_def labels_rename_columns normalize_category)
qed

lemma item_result_Inr:
  assumes "item_result env cat name = Inr df"
  shows "\<exists>data. provider env cat name = Inr data \<and> df = annotate cat name data
           \<and> distinct (labels df) \<and> write_error env (output_name cat name) df = None"
  using assms by (auto simp: item_result_def Let_def split: sum.splits if_splits option.splits)

lemma fetched_member:
  "df \<in> set (fetched env cat names) \<longleftrightarrow> (\<exists>n \<in> set names. item_result env cat n = Inr df)"
proof
  assume "df \<in> set (fetched env cat names)"
  then obtain n where "n \<in> set names" "item_result env cat n = Inr df"
    by (auto simp: fetched_def split: sum.splits)
  then show "\<exists>n \<in> set names. item_result env cat n = Inr df" by blast
next
  assume "\<exists>n \<in> set names. item_result env cat n = Inr df"
  then show "df \<in> set (fetched env cat names)"
    by (force simp: fetched_def)
qed

lemma fetched_inv:
  assumes "df \<in> set (fetched env cat names)"
  shows "distinct (labels df)" and "''dataset'' \<in> set (labels df)"
    and "''category'' \<in> set (labels df)"
proof -
  from assms obtain n where "item_result env cat n = Inr df"
    by (auto simp: fetched_member)
  then obtain data where "df = annotate cat n data" and d: "distinct (labels df)"
    using item_result_Inr by blast
  then show "distinct (labels df)" and "''dataset'' \<in> set (labels df)"
    and "''category'' \<in> set (labels df)"
    by (simp_all add: annotate_has_dataset annotate_has_category)
qed

subsection \<open>The combiner\<close>

lemma fold_summary_step:
  "fold (summary_step env) acc init = init @ map (projection env) (kept acc)"
  by (induction acc arbitrary: init) (simp_all add: summary_step_def kept_def projection_def Let_def)

lemma distinct_available_cols: "distinct (available_cols df)"
  by (simp add: available_cols_def cols_to_keep_def)

lemma set_available_cols: "set (available_cols df) = set cols_to_keep \<inter> set (labels df)"
  by (auto simp: available_cols_def)

lemma filter_eq_singleton: "distinct xs \<Longrightarrow> c \<in> set xs \<Longrightarrow> filter (\<lambda>n. n = c) xs = [c]"
  by (induction xs) (auto simp: filter_empty_conv)

lemma labels_select_cols:
  assumes "distinct (labels df)" and "set cs \<subseteq> set (labels df)"
  shows "labels (select_cols cs df) = cs"
proof -
  have "map fst (filter (\<lambda>(n, xs). n = c) ps) = filter (\<lambda>n. n = c) (map fst ps)" for c
    and ps :: "(string \<times> 'a cell list) list"
    by (induction ps) auto
  then have "labels (select_cols cs df) = concat (map (\<lambda>c. filter (\<lambda>n. n = c) (labels df)) cs)"
    by (simp add: select_cols_def labels_def map_concat comp_def)
  also have "\<dots> = concat (map (\<lambda>c. [c]) cs)"
    using assms by (intro arg_cong [where f = concat] map_cong refl filter_eq_singleton) auto
  also have "\<dots> = cs" by (induction cs) auto
  finally show ?thesis .
qed

lemma labels_drug_id_to_str: "labels (drug_id_to_str env sub) = labels sub"
  by (auto simp: drug_id_to_str_def labels_def split: prod.splits)

lemma nrows_projection: "nrows (projection env df) = nrows df"
  by (simp add: projection_def drug_id_to_str_def select_cols_def nrows_def)

lemma labels_projection:
  "distinct (labels df) \<Longrightarrow> labels (projection env df) = available_cols df"
  by (simp add: projection_def labels_drug_id_to_str labels_select_cols set_available_cols)

lemma set_uniq: "set (uniq seen xs) = set seen \<union> set xs"
  by (induction seen xs rule: uniq.induct) auto

lemma distinct_uniq: "distinct seen \<Longrightarrow> distinct (uniq seen xs)"
  by (induction seen xs rule: uniq.induct) auto

lemma pd_concat_projections:
  assumes "\<forall>df \<in> set acc. distinct (labels df)" and "kept acc \<noteq> []"
  shows "pd_concat (map (projection env) (kept acc)) = Inr (combined_table env acc)"
proof -
  have k: "\<forall>df \<in> set (kept acc). distinct (labels df)"
    using assms(1) by (simp add: kept_def)
  then have l: "map labels (map (projection env) (kept acc)) = map available_cols (kept acc)"
    by (simp add: labels_projection)
  have d: "list_all (\<lambda>f. distinct (labels f)) (map (projection env) (kept acc))"
    using k by (simp add: list_all_iff labels_projection distinct_available_cols)
  have n: "map nrows (map (projection env) (kept acc)) = map nrows (kept acc)"
    by (simp add: nrows_projection)
  show ?thesis
    using assms(2) d
    unfolding pd_concat_def combined_table_def l n
    by (simp add: comp_def)
qed

lemma labels_combined_table:
  "labels (combined_table env acc) = uniq [] (concat (map available_cols (kept acc)))"
  by (simp add: combined_table_def labels_def comp_def)

lemma nrows_combined_table: "nrows (combined_table env acc) = sum_list (map nrows (kept acc))"
  by (simp add: combined_table_def nrows_def range_index_def)

lemma drop_index_combined_table: "drop_index (combined_table env acc) = combined_table env acc"
  by (simp add: drop_index_def nrows_combined_table) (simp add: combined_table_def)

lemma combiner_eq:
  assumes "\<forall>df \<in> set (all_datasets st). distinct (labels df)"
  shows "combiner env st =
     (let st1 = banner_nl ''Creating combined dataset...'' st; acc = all_datasets st
      in if kept acc = [] then (st1, None)
         else case write_error env combined_file (combined_table env acc) of
                Some e \<Rightarrow> (st1, Some e)
              | None \<Rightarrow>
                  (print (combined_line (nrows (combined_table env acc)))
                     (st1\<lparr>brick := AList.update combined_file (Parquet (combined_table env acc)) (brick st)\<rparr>),
                   None))"
proof -
  have a: "all_datasets (banner_nl t st) = all_datasets st" for t
    by (simp add: banner_nl_def print_def)
  have b: "brick (banner_nl t st) = brick st" for t
    by (simp add: banner_nl_def print_def)
  have e: "kept [] = ([] :: 'a table list)" by (simp add: kept_def)
  show ?thesis
  proof (cases "kept (all_datasets st) = []")
    case True
    then show ?thesis
      by (simp add: combiner_def Let_def a fold_summary_step)
  next
    case False
    then have ne: "all_datasets st \<noteq> []" using e by auto
    have dl: "distinct (labels (combined_table env (all_datasets st)))"
      by (simp add: labels_combined_table distinct_uniq)
    show ?thesis
      using False ne dl
      by (simp add: combiner_def Let_def a b fold_summary_step
          pd_concat_projections [OF assms False] to_parquet_def drop_index_combined_table
          split: option.splits)
  qed
qed

section \<open>The reporter and the run\<close>

lemma brick_print [simp]: "brick (print l st) = brick st"
  by (simp add: print_def)

lemma all_datasets_print [simp]: "all_datasets (print l st) = all_datasets st"
  by (simp add: print_def)

lemma console_print [simp]: "console (print l st) = console st @ [l]"
  by (simp add: print_def)

lemma report_files_eq:
  "report_files files total_records st =
     ((total_records + sum_list (map (rows_on_disk (brick st)) (takeWhile (readable (brick st)) files)),
       st\<lparr>console := console st
              @ map (\<lambda>f. file_line f (rows_on_disk (brick st) f))
                  (takeWhile (readable (brick st)) files)\<rparr>),
      first_read_error (brick st) files)"
proof (induction files arbitrary: total_records st)
  case Nil
  show ?case by (simp add: first_read_error_def)
next
  case (Cons f files)
  show ?case
  proof (cases "read_parquet (brick st) f")
    case (Inl e)
    then show ?thesis
      by (simp add: first_read_error_def readable_def read_error_def)
  next
    case (Inr df)
    then have r: "readable (brick st) f" and n: "rows_on_disk (brick st) f = nrows df"
      by (simp_all add: readable_def read_error_def rows_on_disk_def)
    show ?thesis
      using Inr r n by (simp add: Cons.IH first_read_error_def print_def)
  qed
qed

lemma first_read_error_None:
  "first_read_error fs files = None \<longleftrightarrow> list_all (readable fs) files"
proof (induction files)
  case Nil
  show ?case by (simp add: first_read_error_def)
next
  case (Cons f files)
  then show ?case
    by (cases "readable fs f") (auto simp: first_read_error_def readable_def)
qed

lemma reporter_eq:
  "reporter st =
     (let fs = brick st; files = sort (glob_parquet fs)
      in case first_read_error fs files of
           Some e \<Rightarrow> (st\<lparr>console := console st @ report_lines fs files\<rparr>, Some e)
         | None \<Rightarrow>
             (st\<lparr>console := console st @ report_lines fs files
                      @ [total_line (sum_list (map (rows_on_disk fs) files)) (length files)]\<rparr>,
              None))"
proof -
  let ?st = "banner_nl ''Output files:'' st"
  have b: "brick ?st = brick st" by (simp add: banner_nl_def)
  have c: "console ?st = console st @ [nl # rule60, ''Output files:'', rule60]"
    by (simp add: banner_nl_def)
  show ?thesis
  proof (cases "first_read_error (brick st) (sort (glob_parquet (brick st)))")
    case None
    then have "list_all (readable (brick st)) (sort (glob_parquet (brick st)))"
      by (simp add: first_read_error_None)
    then have t: "takeWhile (readable (brick st)) (sort (glob_parquet (brick st))) = sort (glob_parquet (brick st))"
      by (simp add: list_all_iff takeWhile_eq_all_conv)
    show ?thesis
      using None
      by (simp add: reporter_def Let_def report_files_eq b c t report_lines_def print_def
          banner_nl_def)
  next
    case (Some e)
    then show ?thesis
      by (simp add: reporter_def Let_def report_files_eq b c report_lines_def print_def
          banner_nl_def)
  qed
qed

lemma brick_reporter: "brick (fst (reporter st)) = brick st"
  by (simp add: reporter_eq Let_def split: option.splits)

lemma all_datasets_reporter: "all_datasets (fst (reporter st)) = all_datasets st"
  by (simp add: reporter_eq Let_def split: option.splits)

lemma all_datasets_combiner: "all_datasets (fst (combiner env st)) = all_datasets st"
  by (simp add: combiner_def Let_def banner_nl_def split: sum.splits option.splits)

lemma map_of_brick_combiner:
  "p \<noteq> combined_file \<Longrightarrow> map_of (brick (fst (combiner env st))) p = map_of (brick st) p"
  by (simp add: combiner_def Let_def banner_nl_def to_parquet_def update_conv'
      split: sum.splits option.splits)

lemma run_complete:
  assumes "mkdir_error env = None" and "snd (fetch_loops env adme tox fs0) = None"
  shows "run env adme tox fs0 =
     (case combiner env (fetch_all env adme tox fs0) of
        (st1, Some e) \<Rightarrow> (st1, Some e)
      | (st1, None) \<Rightarrow> (case reporter st1 of (st2, r) \<Rightarrow> (st2, map_option Exception r)))"
  using assms by (simp add: run_def fetch_loops_complete)

lemma run_interrupted:
  assumes "mkdir_error env = None" and "snd (fetch_loops env adme tox fs0) = Some e"
  shows "run env adme tox fs0 = (fetch_all env adme tox fs0, Some e)"
proof -
  have "fetch_loops env adme tox fs0 = (fetch_all env adme tox fs0, Some e)"
    using assms(2) by (simp add: fetch_all_def prod_eq_iff)
  then show ?thesis using assms(1) by (simp add: run_def)
qed

lemma all_datasets_run:
  "all_datasets (fst (run env adme tox fs0)) =
     (if mkdir_error env = None then all_datasets (fetch_all env adme tox fs0) else [])"
proof (cases "mkdir_error env")
  case None
  show ?thesis
  proof (cases "snd (fetch_loops env adme tox fs0)")
    case (Some e)
    then show ?thesis using None by (simp add: run_interrupted)
  next
    case n: None
    obtain st r where c: "combiner env (fetch_all env adme tox fs0) = (st, r)"
      by (cases "combiner env (fetch_all env adme tox fs0)")
    then have "all_datasets st = all_datasets (fetch_all env adme tox fs0)"
      using all_datasets_combiner [of env "fetch_all env adme tox fs0"] by simp
    moreover obtain st2 r2 where p: "reporter st = (st2, r2)"
      by (cases "reporter st")
    moreover have "all_datasets st2 = all_datasets st"
      using all_datasets_reporter [of st] p by simp
    ultimately show ?thesis
      using None n c by (cases r) (simp_all add: run_complete)
  qed
next
  case (Some e)
  then show ?thesis by (simp add: run_def)
qed

section \<open>The mocked scenario\<close>

lemma normalize_Drug_ID: "normalize_column ''Drug_ID'' = ''drug_id''"
  by code_simp

lemma normalize_Drug: "normalize_column ''Drug'' = ''drug''"
  by code_simp

lemma normalize_Y: "normalize_column ''Y'' = ''y''"
  by code_simp

lemma lower_Caco2: "lower ''Caco2_Wang'' = ''caco2_wang''"
  by code_simp

lemma annotate_scenario:
  "annotate ADME ''Caco2_Wang'' (scenario_table [a1, a2, a3] [b1, b2, b3] [y1, y2, y3]) =
     \<lparr>index = [0, 1, 2],
      cols = [(''drug_id'', [a1, a2, a3]), (''drug'', [b1, b2, b3]), (''y'', [y1, y2, y3]),
              (''dataset'', [Text ''Caco2_Wang'', Text ''Caco2_Wang'', Text ''Caco2_Wang'']),
              (''category'', [Text ''ADME'', Text ''ADME'', Text ''ADME''])]\<rparr>"
  by (simp add: annotate_def scenario_table_def set_scalar_def labels_def nrows_def
      rename_columns_def normalize_Drug_ID normalize_Drug normalize_Y normalize_dataset
      normalize_category numeral_3_eq_3)

lemma output_name_Caco2: "output_name ADME ''Caco2_Wang'' = ''adme_caco2_wang.parquet''"
  by (simp add: output_name_def lower_Caco2)

lemma item_result_scenario:
  assumes "w ''adme_caco2_wang.parquet'' (scenario_file [a1, a2, a3] [b1, b2, b3] [y1, y2, y3]) = None"
  shows "item_result (scenario_env f e w (scenario_table [a1, a2, a3] [b1, b2, b3] [y1, y2, y3]))
     ADME ''Caco2_Wang'' =
     Inr (scenario_file [a1, a2, a3] [b1, b2, b3] [y1, y2, y3])"
  using assms
  by (simp add: item_result_def scenario_env_def annotate_scenario labels_def
      output_name_Caco2 scenario_file_def)

lemma item_result_scenario_other:
  "cat \<noteq> ADME \<or> n \<noteq> ''Caco2_Wang'' \<Longrightarrow>
     item_result (scenario_env f e w t) cat n = Inl (Exception e)"
  by (auto simp add: item_result_def scenario_env_def)

lemma item_result_mock: "item_result mock_env ADME ''Caco2_Wang'' = Inr mock_annotated"
  by (simp add: mock_env_def mock_table_def item_result_scenario scenario_file_def
      mock_annotated_def)

lemma item_result_mock_other:
  "cat \<noteq> ADME \<or> n \<noteq> ''Caco2_Wang'' \<Longrightarrow>
     item_result mock_env cat n = Inl (Exception ''fetch failed'')"
  by (simp add: mock_env_def item_result_scenario_other)

lemma escaping_mock: "escaping mock_env cat n = None"
  by (cases "cat = ADME \<and> n = ''Caco2_Wang''")
    (auto simp: escaping_def item_result_mock item_result_mock_other)

lemma first_escaping_mock: "first_escaping mock_env cat names = None"
  by (induction names) (simp_all add: escaping_mock)

lemma loops_mock: "snd (fetch_loops mock_env adme tox fs0) = None"
  by (simp add: fetch_loops_snd first_escaping_mock)

lemma mkdir_mock: "mkdir_error mock_env = None"
  by (simp add: mock_env_def scenario_env_def)

lemma write_error_mock: "write_error mock_env p df = None"
  by (simp add: mock_env_def scenario_env_def)

lemma fetched_Nil: "fetched env cat [] = []"
  by (simp add: fetched_def)

lemma fetched_mock_two:
  "fetched mock_env ADME [''Caco2_Wang'', ''PAMPA_NCATS''] = [mock_annotated]"
  by (simp add: fetched_def item_result_mock item_result_mock_other)

lemma labels_mock_annotated:
  "labels mock_annotated = [''drug_id'', ''drug'', ''y'', ''dataset'', ''category'']"
  by (simp add: mock_annotated_def labels_def)

lemma available_mock_annotated:
  "available_cols mock_annotated = [''drug_id'', ''drug'', ''y'', ''dataset'', ''category'']"
  by (simp add: available_cols_def labels_mock_annotated cols_to_keep_def)

lemma nrows_mock_annotated: "nrows mock_annotated = 3"
  by (simp add: mock_annotated_def nrows_def)

section \<open>The combined file\<close>

lemma read_parquet_update:
  "read_parquet (AList.update p (Parquet t) fs) p = Inr t"
  by (simp add: read_parquet_def update_conv')

text \<open>
  C3. For an accumulator of tables with distinct column labels (as every written table
  has): when no table has one of the five projected columns, which includes the empty
  accumulator, the combiner writes nothing; otherwise, the write raising nothing, the
  combined file has as many rows as the tables with a projected column have together.
\<close>

theorem combined_row_count:
  assumes "\<forall>df \<in> set (all_datasets st). distinct (labels df)"
  shows "let with_cols = filter (\<lambda>df. available_cols df \<noteq> []) (all_datasets st)
         in (with_cols = [] \<longrightarrow>
               combiner env st = (banner_nl ''Creating combined dataset...'' st, None))
          \<and> (with_cols \<noteq> [] \<and> write_error env combined_file (combined_table env (all_datasets st)) = None \<longrightarrow>
               (\<exists>t. read_parquet (brick (fst (combiner env st))) combined_file = Inr t
                    \<and> nrows t = sum_list (map nrows with_cols)))"
  using assms
  by (simp add: combiner_eq Let_def kept_def [symmetric] read_parquet_update nrows_combined_table)

lemma available_unprojected: "available_cols unprojected_table = []"
  by (simp add: available_cols_def unprojected_table_def labels_def cols_to_keep_def)

theorem combined_row_count_witness:
  "filter (\<lambda>df. available_cols df \<noteq> []) (all_datasets mock_state) = [mock_annotated]
   \<and> (\<exists>t. read_parquet (brick (fst (combiner mock_env mock_state))) combined_file = Inr t
           \<and> nrows t = 3)
   \<and> combiner mock_env empty_state = (banner_nl ''Creating combined dataset...'' empty_state, None)"
proof -
  have "distinct (labels unprojected_table)"
    by (simp add: unprojected_table_def labels_def)
  then have 1: "\<forall>df \<in> set (all_datasets mock_state). distinct (labels df)"
    by (simp add: mock_state_def labels_mock_annotated)
  have 2: "\<forall>df \<in> set (all_datasets empty_state). distinct (labels df)"
    by (simp add: empty_state_def)
  have 3: "all_datasets empty_state = []" by (simp add: empty_state_def)
  have 4: "all_datasets mock_state = [mock_annotated, unprojected_table]"
    by (simp add: mock_state_def)
  show ?thesis
    using combined_row_count [OF 1, of mock_env] combined_row_count [OF 2, of mock_env]
    by (simp add: Let_def 3 4 available_mock_annotated available_unprojected write_error_mock
        nrows_mock_annotated)
qed

lemma map_of_keyed:
  "c \<in> set ls \<Longrightarrow> map_of (map (\<lambda>c. (c, g c)) ls) c = Some (g c)"
  by (induction ls) auto

lemma column_combined_table:
  "c \<in> set (labels (combined_table env acc)) \<Longrightarrow>
     column (combined_table env acc) c =
       Some (concat (map (\<lambda>df. column_or_nan (projection env df) c) (kept acc)))"
  unfolding labels_combined_table
  by (simp add: column_def combined_table_def map_of_keyed)

lemma fetch_all_inv:
  assumes "df \<in> set (all_datasets (fetch_all env adme tox fs0))"
  shows "distinct (labels df)" and "available_cols df \<noteq> []"
proof -
  obtain a t where "all_datasets (fetch_all env adme tox fs0) =
      fetched env ADME a @ fetched env Tox t"
    using fetch_all_accumulator by blast
  with assms have "df \<in> set (fetched env ADME a) \<or> df \<in> set (fetched env Tox t)"
    by simp
  then have "distinct (labels df) \<and> ''dataset'' \<in> set (labels df)"
    using fetched_inv [of df env] by blast
  then show "distinct (labels df)" and "available_cols df \<noteq> []"
    by (auto simp: available_cols_def cols_to_keep_def filter_empty_conv)
qed

lemma kept_fetch_all:
  "kept (all_datasets (fetch_all env adme tox fs0)) = all_datasets (fetch_all env adme tox fs0)"
  using fetch_all_inv(2) [of _ env adme tox fs0] by (simp add: kept_def)

lemma combiner_fetch_all:
  assumes "all_datasets (fetch_all env adme tox fs0) \<noteq> []"
    and "write_error env combined_file
           (combined_table env (all_datasets (fetch_all env adme tox fs0))) = None"
  shows "read_parquet (brick (fst (combiner env (fetch_all env adme tox fs0)))) combined_file =
           Inr (combined_table env (all_datasets (fetch_all env adme tox fs0)))"
    and "snd (combiner env (fetch_all env adme tox fs0)) = None"
proof -
  have "\<forall>df \<in> set (all_datasets (fetch_all env adme tox fs0)). distinct (labels df)"
    using fetch_all_inv(1) by blast
  then show "read_parquet (brick (fst (combiner env (fetch_all env adme tox fs0)))) combined_file =
           Inr (combined_table env (all_datasets (fetch_all env adme tox fs0)))"
    and "snd (combiner env (fetch_all env adme tox fs0)) = None"
    using assms by (simp_all add: combiner_eq Let_def kept_fetch_all read_parquet_update)
qed

subsection \<open>Rectangular tables\<close>

lemma wf_table_iff: "wf_table df \<longleftrightarrow> (\<forall>p \<in> set (cols df). length (snd p) = nrows df)"
  by (auto simp: wf_table_def list_all_iff)

lemma wf_set_scalar: "wf_table df \<Longrightarrow> wf_table (set_scalar c v df)"
  by (auto simp: wf_table_iff set_scalar_def Let_def nrows_def split: if_splits)

lemma wf_rename_columns: "wf_table df \<Longrightarrow> wf_table (rename_columns f df)"
  by (auto simp: wf_table_iff rename_columns_def nrows_def)

lemma wf_annotate: "wf_table data \<Longrightarrow> wf_table (annotate cat name data)"
  by (simp add: annotate_def wf_rename_columns wf_set_scalar)

lemma wf_projection: "wf_table df \<Longrightarrow> wf_table (projection env df)"
  by (auto simp: wf_table_iff projection_def select_cols_def drug_id_to_str_def nrows_def
      split: if_splits)

lemma length_column_or_nan: "wf_table df \<Longrightarrow> length (column_or_nan df c) = nrows df"
proof (cases "column df c")
  case None
  then show ?thesis by (simp add: column_or_nan_def)
next
  case (Some xs)
  then have "(c, xs) \<in> set (cols df)" by (simp add: column_def map_of_SomeD)
  moreover assume "wf_table df"
  ultimately have "length xs = nrows df" by (auto simp: wf_table_iff)
  then show ?thesis using Some by (simp add: column_or_nan_def)
qed

lemma wf_combined_table:
  assumes "\<forall>df \<in> set acc. wf_table df"
  shows "wf_table (combined_table env acc)"
proof -
  have "length (column_or_nan (projection env df) c) = nrows df" if "df \<in> set (kept acc)" for df c
    using that assms by (simp add: kept_def length_column_or_nan wf_projection nrows_projection)
  then have "length (concat (map (\<lambda>df. column_or_nan (projection env df) c) (kept acc))) =
               sum_list (map nrows (kept acc))" for c
    by (simp add: length_concat comp_def cong: map_cong)
  then show ?thesis
    by (simp add: wf_table_iff combined_table_def nrows_def range_index_def)
qed

lemma fetched_wf:
  assumes "\<forall>cat n data. provider env cat n = Inr data \<longrightarrow> wf_table data"
    and "df \<in> set (fetched env cat names)"
  shows "wf_table df"
proof -
  from assms(2) obtain n where "item_result env cat n = Inr df"
    by (auto simp: fetched_member)
  then obtain data where "provider env cat n = Inr data" and "df = annotate cat n data"
    using item_result_Inr by blast
  then show ?thesis using assms(1) by (simp add: wf_annotate)
qed

text \<open>
  C7. When no exception escapes the two loops (one that does ends the run before the
  combiner), the accumulator holds the written tables of the ADME list in list order, then
  those of the Toxicity list in list order. The combined file, when the combiner writes it,
  has the index 0, 1, ..., the labels of the projections in the order of their first
  appearance, and under each label the cells of the projections one table after the other
  in that order, nothing removed. When the provider's tables are rectangular, each table
  contributes as many cells to a column as it has rows, so that a row keeps its place
  among the rows of its table in every column.
\<close>

theorem combined_is_concatenation:
  "let st = fetch_all env adme tox fs0; acc = all_datasets st
   in (snd (fetch_loops env adme tox fs0) = None \<longrightarrow>
         acc = fetched env ADME adme @ fetched env Tox tox)
    \<and> fold (summary_step env) acc [] = map (projection env) acc
    \<and> (acc \<noteq> [] \<and> write_error env combined_file (combined_table env acc) = None \<longrightarrow>
         (\<exists>t. read_parquet (brick (fst (combiner env st))) combined_file = Inr t
              \<and> index t = range_index (sum_list (map nrows acc))
              \<and> labels t = uniq [] (concat (map (\<lambda>df. labels (projection env df)) acc))
              \<and> (\<forall>c \<in> set (labels t).
                    column t c =
                      Some (concat (map (\<lambda>df. column_or_nan (projection env df) c) acc)))))
    \<and> ((\<forall>cat n data. provider env cat n = Inr data \<longrightarrow> wf_table data) \<longrightarrow>
         (\<forall>df \<in> set acc. \<forall>c. length (column_or_nan (projection env df) c) = nrows df))"
proof -
  let ?st = "fetch_all env adme tox fs0"
  let ?acc = "all_datasets ?st"
  have k: "kept ?acc = ?acc" by (rule kept_fetch_all)
  have 1: "?acc = fetched env ADME adme @ fetched env Tox tox"
    if "snd (fetch_loops env adme tox fs0) = None"
    using that by (simp add: fetch_all_eq)
  have 2: "fold (summary_step env) ?acc [] = map (projection env) ?acc"
    by (simp add: fold_summary_step k)
  have l: "map (\<lambda>df. labels (projection env df)) ?acc = map available_cols ?acc"
    using fetch_all_inv(1) [of _ env adme tox fs0] by (simp add: labels_projection)
  have 3: "index (combined_table env ?acc) = range_index (sum_list (map nrows ?acc))"
    by (simp add: combined_table_def k)
  have 4: "labels (combined_table env ?acc) = uniq [] (concat (map (\<lambda>df. labels (projection env df)) ?acc))"
    by (simp add: labels_combined_table k l)
  have 5: "\<forall>c \<in> set (labels (combined_table env ?acc)).
             column (combined_table env ?acc) c =
               Some (concat (map (\<lambda>df. column_or_nan (projection env df) c) ?acc))"
    using column_combined_table [of _ env ?acc] by (simp add: k)
  have 6: "\<exists>t. read_parquet (brick (fst (combiner env ?st))) combined_file = Inr t
              \<and> index t = range_index (sum_list (map nrows ?acc))
              \<and> labels t = uniq [] (concat (map (\<lambda>df. labels (projection env df)) ?acc))
              \<and> (\<forall>c \<in> set (labels t).
                    column t c =
                      Some (concat (map (\<lambda>df. column_or_nan (projection env df) c) ?acc)))"
    if "?acc \<noteq> []" "write_error env combined_file (combined_table env ?acc) = None"
    using combiner_fetch_all(1) [OF that] 3 4 5 by blast
  have 7: "\<forall>df \<in> set ?acc. \<forall>c. length (column_or_nan (projection env df) c) = nrows df"
    if w: "\<forall>cat n data. provider env cat n = Inr data \<longrightarrow> wf_table data"
  proof (intro ballI allI)
    fix df c assume d: "df \<in> set ?acc"
    obtain a t where "?acc = fetched env ADME a @ fetched env Tox t"
      using fetch_all_accumulator by blast
    with d have "df \<in> set (fetched env ADME a) \<or> df \<in> set (fetched env Tox t)"
      by simp
    then have "wf_table df" using fetched_wf [OF w] by blast
    then show "length (column_or_nan (projection env df) c) = nrows df"
      by (simp add: length_column_or_nan wf_projection nrows_projection)
  qed
  show ?thesis
    unfolding Let_def using 1 2 6 7 by blast
qed

lemma item_result_mixed_adme: "item_result mixed_env ADME ''Caco2_Wang'' = Inr mixed_adme"
  by (simp add: item_result_def mixed_env_def annotate_def set_scalar_def labels_def nrows_def
      rename_columns_def normalize_Drug_ID normalize_Y normalize_dataset normalize_category
      mixed_adme_def)

lemma item_result_mixed_tox: "item_result mixed_env Tox ''hERG'' = Inr mixed_tox"
  by (simp add: item_result_def mixed_env_def annotate_def set_scalar_def labels_def nrows_def
      rename_columns_def normalize_Drug normalize_Y normalize_dataset normalize_category
      mixed_tox_def)

lemma item_result_mixed_other:
  "(cat, n) \<noteq> (ADME, ''Caco2_Wang'') \<Longrightarrow> (cat, n) \<noteq> (Tox, ''hERG'') \<Longrightarrow>
     item_result mixed_env cat n = Inl (Exception ''fetch failed'')"
  by (auto simp add: item_result_def mixed_env_def)

lemma fetched_mixed_adme: "fetched mixed_env ADME adme_datasets = [mixed_adme]"
  by (simp add: fetched_def adme_datasets_def item_result_mixed_adme item_result_mixed_other)

lemma fetched_mixed_tox: "fetched mixed_env Tox tox_datasets = [mixed_tox]"
  by (simp add: fetched_def tox_datasets_def item_result_mixed_tox item_result_mixed_other)

lemma escaping_mixed: "escaping mixed_env cat n = None"
proof -
  have "provider mixed_env cat n \<noteq> Inl (BaseException e)" for e
    by (simp add: mixed_env_def)
  then show ?thesis
    by (auto simp: escaping_def item_result_def mixed_env_def Let_def
        split: sum.splits raised.splits if_splits)
qed

lemma first_escaping_mixed: "first_escaping mixed_env cat names = None"
  by (induction names) (simp_all add: escaping_mixed)

lemma loops_mixed: "snd (fetch_loops mixed_env adme tox fs0) = None"
  by (simp add: fetch_loops_snd first_escaping_mixed)

lemma accumulator_mixed:
  "all_datasets (fetch_all mixed_env adme_datasets tox_datasets fs0) = [mixed_adme, mixed_tox]"
  by (simp add: fetch_all_eq loops_mixed fetched_mixed_adme fetched_mixed_tox)

lemma write_error_mixed: "write_error mixed_env p df = None"
  by (simp add: mixed_env_def)

lemma str_nat_7: "str_nat 7 = ''7''"
  by code_simp

lemma projection_mixed_adme:
  "projection mixed_env mixed_adme =
     \<lparr>index = [0],
      cols = [(''drug_id'', [Text ''7'']), (''y'', [Val 1]), (''dataset'', [Text ''Caco2_Wang'']),
              (''category'', [Text ''ADME''])]\<rparr>"
  by (simp add: projection_def available_cols_def cols_to_keep_def mixed_adme_def labels_def
      select_cols_def drug_id_to_str_def mixed_env_def str_nat_7)

lemma projection_mixed_tox:
  "projection mixed_env mixed_tox =
     \<lparr>index = [0],
      cols = [(''drug'', [Text ''CCO'']), (''y'', [Val 0]), (''dataset'', [Text ''hERG'']),
              (''category'', [Text ''Toxicity''])]\<rparr>"
  by (simp add: projection_def available_cols_def cols_to_keep_def mixed_tox_def labels_def
      select_cols_def drug_id_to_str_def)

lemma nrows_mixed_adme: "nrows mixed_adme = 1"
  by (simp add: mixed_adme_def nrows_def)

lemma nrows_mixed_tox: "nrows mixed_tox = 1"
  by (simp add: mixed_tox_def nrows_def)

lemma provider_mixed_wf: "provider mixed_env cat n = Inr data \<Longrightarrow> wf_table data"
  by (auto simp: mixed_env_def wf_table_def nrows_def split: if_splits)

theorem combined_is_concatenation_witness:
  "all_datasets (fetch_all mixed_env adme_datasets tox_datasets []) = [mixed_adme, mixed_tox]
   \<and> (\<exists>t. read_parquet
             (brick (fst (combiner mixed_env (fetch_all mixed_env adme_datasets tox_datasets []))))
             combined_file = Inr t
         \<and> index t = [0, 1]
         \<and> labels t = [''drug_id'', ''y'', ''dataset'', ''category'', ''drug'']
         \<and> column t ''drug_id'' = Some [Text ''7'', NaN]
         \<and> column t ''y'' = Some [Val 1, Val 0]
         \<and> column t ''dataset'' = Some [Text ''Caco2_Wang'', Text ''hERG'']
         \<and> column t ''category'' = Some [Text ''ADME'', Text ''Toxicity'']
         \<and> column t ''drug'' = Some [NaN, Text ''CCO''])
   \<and> length (column_or_nan (projection mixed_env mixed_adme) ''drug'') = nrows mixed_adme
   \<and> length (column_or_nan (projection mixed_env mixed_tox) ''drug_id'') = nrows mixed_tox"
proof -
  let ?st = "fetch_all mixed_env adme_datasets tox_datasets []"
  have acc: "all_datasets ?st = [mixed_adme, mixed_tox]" by (rule accumulator_mixed)
  have w: "\<forall>cat n data. provider mixed_env cat n = Inr data \<longrightarrow> wf_table data"
    using provider_mixed_wf by blast
  note inst = combined_is_concatenation [of mixed_env adme_datasets tox_datasets "[]",
      unfolded Let_def acc]
  have "\<exists>t. read_parquet (brick (fst (combiner mixed_env ?st))) combined_file = Inr t
         \<and> index t = range_index (sum_list (map nrows [mixed_adme, mixed_tox]))
         \<and> labels t = uniq [] (concat (map (\<lambda>df. labels (projection mixed_env df))
                                          [mixed_adme, mixed_tox]))
         \<and> (\<forall>c \<in> set (labels t).
               column t c = Some (concat (map (\<lambda>df. column_or_nan (projection mixed_env df) c)
                                            [mixed_adme, mixed_tox])))"
    using inst
    by (simp add: write_error_mixed fetched_mixed_adme fetched_mixed_tox loops_mixed)
  then obtain t where r: "read_parquet (brick (fst (combiner mixed_env ?st))) combined_file = Inr t"
    and i: "index t = range_index (sum_list (map nrows [mixed_adme, mixed_tox]))"
    and l: "labels t = uniq [] (concat (map (\<lambda>df. labels (projection mixed_env df))
                                          [mixed_adme, mixed_tox]))"
    and c: "\<And>c. c \<in> set (labels t) \<Longrightarrow>
               column t c = Some (concat (map (\<lambda>df. column_or_nan (projection mixed_env df) c)
                                            [mixed_adme, mixed_tox]))"
    by blast
  have i': "index t = [0, 1]"
    using i by (simp add: nrows_mixed_adme nrows_mixed_tox range_index_def)
  have l': "labels t = [''drug_id'', ''y'', ''dataset'', ''category'', ''drug'']"
    using l by (simp add: projection_mixed_adme projection_mixed_tox labels_def)
  note ev = l' projection_mixed_adme projection_mixed_tox column_or_nan_def column_def nrows_def
  have 1: "column t ''drug_id'' = Some [Text ''7'', NaN]"
    using c [of "''drug_id''"] by (simp add: ev)
  have 2: "column t ''y'' = Some [Val 1, Val 0]"
    using c [of "''y''"] by (simp add: ev)
  have 3: "column t ''dataset'' = Some [Text ''Caco2_Wang'', Text ''hERG'']"
    using c [of "''dataset''"] by (simp add: ev)
  have 4: "column t ''category'' = Some [Text ''ADME'', Text ''Toxicity'']"
    using c [of "''category''"] by (simp add: ev)
  have 5: "column t ''drug'' = Some [NaN, Text ''CCO'']"
    using c [of "''drug''"] by (simp add: ev)
  have 6: "length (column_or_nan (projection mixed_env mixed_adme) ''drug'') = nrows mixed_adme"
    "length (column_or_nan (projection mixed_env mixed_tox) ''drug_id'') = nrows mixed_tox"
    using inst w by simp_all
  show ?thesis using acc r i' l' 1 2 3 4 5 6 by blast
qed

section \<open>The accumulator\<close>

lemma map_of_select:
  "map_of (concat (map (\<lambda>c'. filter (\<lambda>(n, xs). n = c') ps) cs)) c =
     (if c \<in> set cs then map_of ps c else None)"
proof (induction cs)
  case Nil
  show ?case by simp
next
  case (Cons c' cs)
  have k: "map_of (filter (\<lambda>(n, xs). n = c) ps) c = map_of ps c"
    by (induction ps) auto
  have o: "map_of (filter (\<lambda>(n, xs). n = c') ps) c = None" if "c \<noteq> c'"
    using that by (induction ps) auto
  show ?case
  proof (cases "c = c'")
    case True
    then have k': "map_of (filter (\<lambda>(n, xs). n = c') ps) c' = map_of ps c'"
      using k by simp
    show ?thesis
      using Cons.IH True by (cases "map_of ps c'") (simp_all add: map_add_def k')
  next
    case False
    then show ?thesis
      using Cons.IH by (simp add: map_add_def o)
  qed
qed

lemma map_of_map_other:
  "k \<noteq> d \<Longrightarrow>
     map_of (map (\<lambda>(n, xs). if n = d then (n, g xs) else (n, xs)) ps) k = map_of ps k"
  by (induction ps) auto

lemma column_projection_other:
  assumes "c \<in> set (available_cols df)" and "c \<noteq> ''drug_id''"
  shows "column (projection env df) c = column df c"
  using assms
  by (simp add: projection_def drug_id_to_str_def column_def select_cols_def map_of_select
      map_of_map_other)

lemma column_or_nan_projection_other:
  assumes "c \<in> set (available_cols df)" and "c \<noteq> ''drug_id''"
  shows "column_or_nan (projection env df) c = column_or_nan df c"
  unfolding column_or_nan_def column_projection_other [OF assms] nrows_projection ..

lemma dataset_cell_set_scalar:
  "(c, replicate (nrows df) v) \<in> set (cols (set_scalar c v df))"
proof (cases "c \<in> set (labels df)")
  case True
  then obtain xs where "(c, xs) \<in> set (cols df)" by (auto simp: labels_def)
  then have "(\<lambda>(n, xs). if n = c then (n, replicate (nrows df) v) else (n, xs)) (c, xs)
               \<in> (\<lambda>(n, xs). if n = c then (n, replicate (nrows df) v) else (n, xs)) ` set (cols df)"
    by (rule imageI)
  then show ?thesis using True by (simp add: set_scalar_def Let_def)
next
  case False
  then show ?thesis by (simp add: set_scalar_def Let_def)
qed

lemma other_cell_set_scalar:
  assumes "(k, xs) \<in> set (cols df)" and "k \<noteq> c"
  shows "(k, xs) \<in> set (cols (set_scalar c v df))"
proof (cases "c \<in> set (labels df)")
  case True
  have "(\<lambda>(n, xs). if n = c then (n, replicate (nrows df) v) else (n, xs)) (k, xs)
               \<in> (\<lambda>(n, xs). if n = c then (n, replicate (nrows df) v) else (n, xs)) ` set (cols df)"
    using assms(1) by (rule imageI)
  then show ?thesis using True assms(2) by (simp add: set_scalar_def Let_def)
next
  case False
  then show ?thesis using assms(1) by (simp add: set_scalar_def Let_def)
qed

lemma column_annotate_dataset:
  assumes "distinct (labels (annotate cat name data))"
  shows "column (annotate cat name data) ''dataset'' = Some (replicate (nrows data) (Text name))"
proof -
  let ?col = "replicate (nrows data) (Text name)"
  let ?d = "set_scalar ''category'' (Text (category_tag cat)) (set_scalar ''dataset'' (Text name) data)"
  have "(''dataset'', ?col) \<in> set (cols (set_scalar ''dataset'' (Text name) data))"
    by (rule dataset_cell_set_scalar)
  then have "(''dataset'', ?col) \<in> set (cols ?d)"
    by (rule other_cell_set_scalar) simp
  then have "(\<lambda>(n, xs). (normalize_column n, xs)) (''dataset'', ?col)
               \<in> (\<lambda>(n, xs). (normalize_column n, xs)) ` set (cols ?d)"
    by (rule imageI)
  then have "(''dataset'', ?col) \<in> set (cols (annotate cat name data))"
    by (simp add: annotate_def rename_columns_def normalize_dataset)
  moreover have "distinct (map fst (cols (annotate cat name data)))"
    using assms by (simp add: labels_def)
  ultimately show ?thesis
    unfolding column_def by (rule map_of_is_SomeI [rotated])
qed

text \<open>
  C9. Every table of the accumulator is a provider table as annotated; it has a
  \<^verbatim>\<open>dataset\<close> and a \<^verbatim>\<open>category\<close> column, and its \<^verbatim>\<open>dataset\<close> column holds
  the name of the dataset in every row. So every accumulated table has a projected column
  and the combiner skips none: the summary holds the projection of every accumulated
  table, in order. The combined file, when the combiner writes it, has as many rows as the
  accumulated tables together, and its \<^verbatim>\<open>dataset\<close> column is made of the
  \<^verbatim>\<open>dataset\<close> columns of the accumulated tables, one after the other: every
  accumulated table contributes each of its rows.
\<close>

theorem accumulator_invariant:
  "let st = fetch_all env adme tox fs0; acc = all_datasets st
   in (\<forall>df \<in> set acc.
         ''dataset'' \<in> set (labels df) \<and> ''category'' \<in> set (labels df)
         \<and> available_cols df \<noteq> []
         \<and> (\<exists>cat name data. provider env cat name = Inr data \<and> df = annotate cat name data
               \<and> column df ''dataset'' = Some (replicate (nrows data) (Text name))))
    \<and> fold (summary_step env) acc [] = map (projection env) acc
    \<and> (acc \<noteq> [] \<and> write_error env combined_file (combined_table env acc) = None \<longrightarrow>
         (\<exists>t. read_parquet (brick (fst (combiner env st))) combined_file = Inr t
              \<and> nrows t = sum_list (map nrows acc)
              \<and> column t ''dataset'' =
                  Some (concat (map (\<lambda>df. column_or_nan df ''dataset'') acc))))"
proof -
  let ?st = "fetch_all env adme tox fs0"
  let ?acc = "all_datasets ?st"
  let ?t = "combined_table env ?acc"
  obtain a t where acc: "?acc = fetched env ADME a @ fetched env Tox t"
    using fetch_all_accumulator by blast
  have k: "kept ?acc = ?acc" by (rule kept_fetch_all)
  have m: "''dataset'' \<in> set (labels df) \<and> ''category'' \<in> set (labels df)"
    if "df \<in> set ?acc" for df
    using that fetched_inv [of df env] by (auto simp: acc)
  have av: "''dataset'' \<in> set (available_cols df)" if "df \<in> set ?acc" for df
    using m [OF that] by (simp add: available_cols_def cols_to_keep_def)
  have p: "\<exists>cat name data. provider env cat name = Inr data \<and> df = annotate cat name data
               \<and> column df ''dataset'' = Some (replicate (nrows data) (Text name))"
    if "df \<in> set ?acc" for df
  proof -
    from that obtain cat n where "item_result env cat n = Inr df"
      by (auto simp: acc fetched_member)
    then obtain data where d: "provider env cat n = Inr data" "df = annotate cat n data"
      "distinct (labels df)"
      using item_result_Inr by blast
    then have "column df ''dataset'' = Some (replicate (nrows data) (Text n))"
      by (simp add: column_annotate_dataset)
    with d show ?thesis by blast
  qed
  have 1: "\<forall>df \<in> set ?acc.
         ''dataset'' \<in> set (labels df) \<and> ''category'' \<in> set (labels df)
         \<and> available_cols df \<noteq> []
         \<and> (\<exists>cat name data. provider env cat name = Inr data \<and> df = annotate cat name data
               \<and> column df ''dataset'' = Some (replicate (nrows data) (Text name)))"
    using m av p by fastforce
  have 2: "fold (summary_step env) ?acc [] = map (projection env) ?acc"
    by (simp add: fold_summary_step k)
  have 3: "nrows ?t = sum_list (map nrows ?acc)"
    by (simp add: nrows_combined_table k)
  have 4: "column ?t ''dataset'' = Some (concat (map (\<lambda>df. column_or_nan df ''dataset'') ?acc))"
    if ne: "?acc \<noteq> []"
  proof -
    from ne obtain df where "df \<in> set ?acc" by (cases ?acc) auto
    then have "''dataset'' \<in> set (labels ?t)"
      using av [of df] by (auto simp: labels_combined_table set_uniq k)
    then have "column ?t ''dataset'' =
        Some (concat (map (\<lambda>df. column_or_nan (projection env df) ''dataset'') ?acc))"
      using column_combined_table [of "''dataset''" env ?acc] by (simp add: k)
    moreover have "map (\<lambda>df. column_or_nan (projection env df) ''dataset'') ?acc =
        map (\<lambda>df. column_or_nan df ''dataset'') ?acc"
      using av by (simp add: column_or_nan_projection_other)
    ultimately show ?thesis by simp
  qed
  have 5: "\<exists>t. read_parquet (brick (fst (combiner env ?st))) combined_file = Inr t
              \<and> nrows t = sum_list (map nrows ?acc)
              \<and> column t ''dataset'' =
                  Some (concat (map (\<lambda>df. column_or_nan df ''dataset'') ?acc))"
    if "?acc \<noteq> []" "write_error env combined_file ?t = None"
    using combiner_fetch_all(1) [OF that] 3 4 [OF that(1)] by blast
  show ?thesis
    unfolding Let_def using 1 2 5 by blast
qed

theorem accumulator_invariant_witness:
  "all_datasets (fetch_all mixed_env adme_datasets tox_datasets []) = [mixed_adme, mixed_tox]
   \<and> column mixed_adme ''dataset'' = Some [Text ''Caco2_Wang'']
   \<and> column mixed_tox ''dataset'' = Some [Text ''hERG'']
   \<and> available_cols mixed_adme \<noteq> [] \<and> available_cols mixed_tox \<noteq> []
   \<and> fold (summary_step mixed_env) [mixed_adme, mixed_tox] [] =
       [projection mixed_env mixed_adme, projection mixed_env mixed_tox]
   \<and> (\<exists>t. read_parquet
             (brick (fst (combiner mixed_env (fetch_all mixed_env adme_datasets tox_datasets []))))
             combined_file = Inr t
         \<and> nrows t = 2
         \<and> column t ''dataset'' = Some [Text ''Caco2_Wang'', Text ''hERG''])"
proof -
  let ?st = "fetch_all mixed_env adme_datasets tox_datasets []"
  have acc: "all_datasets ?st = [mixed_adme, mixed_tox]" by (rule accumulator_mixed)
  have c: "column mixed_adme ''dataset'' = Some [Text ''Caco2_Wang'']"
    "column mixed_tox ''dataset'' = Some [Text ''hERG'']"
    by (simp_all add: column_def mixed_adme_def mixed_tox_def)
  note inst = accumulator_invariant [of mixed_env adme_datasets tox_datasets "[]",
      unfolded Let_def acc]
  from inst have 1: "available_cols mixed_adme \<noteq> []" "available_cols mixed_tox \<noteq> []"
    by simp_all
  from inst have 2: "fold (summary_step mixed_env) [mixed_adme, mixed_tox] [] =
       [projection mixed_env mixed_adme, projection mixed_env mixed_tox]"
    by simp
  from inst have "\<exists>t. read_parquet (brick (fst (combiner mixed_env ?st))) combined_file = Inr t
         \<and> nrows t = sum_list (map nrows [mixed_adme, mixed_tox])
         \<and> column t ''dataset'' =
             Some (concat (map (\<lambda>df. column_or_nan df ''dataset'') [mixed_adme, mixed_tox]))"
    by (simp add: write_error_mixed)
  then obtain t where r: "read_parquet (brick (fst (combiner mixed_env ?st))) combined_file = Inr t"
    and n: "nrows t = sum_list (map nrows [mixed_adme, mixed_tox])"
    and d: "column t ''dataset'' =
             Some (concat (map (\<lambda>df. column_or_nan df ''dataset'') [mixed_adme, mixed_tox]))"
    by blast
  have "nrows t = 2" using n by (simp add: nrows_mixed_adme nrows_mixed_tox)
  moreover have "column t ''dataset'' = Some [Text ''Caco2_Wang'', Text ''hERG'']"
    using d by (simp add: column_or_nan_def c)
  ultimately have 3: "\<exists>t. read_parquet (brick (fst (combiner mixed_env ?st))) combined_file = Inr t
         \<and> nrows t = 2
         \<and> column t ''dataset'' = Some [Text ''Caco2_Wang'', Text ''hERG'']"
    using r by blast
  show ?thesis using acc c 1 2 3 by (intro conjI)
qed

section \<open>The columns of the combined file\<close>

lemma is_text_astype_str: "is_text (astype_str f x)"
  by (cases x) simp_all

lemma map_of_drug_id_to_str:
  "map_of (map (\<lambda>(n, xs). if n = k then (n, g xs) else (n, xs)) ps) k = map_option g (map_of ps k)"
  by (induction ps) auto

lemma column_drug_id_to_str:
  "column (drug_id_to_str env sub) ''drug_id'' =
     map_option (map (astype_str (str_of env))) (column sub ''drug_id'')"
proof (cases "''drug_id'' \<in> set (labels sub)")
  case True
  then show ?thesis
    by (simp add: drug_id_to_str_def column_def map_of_drug_id_to_str)
next
  case False
  then have "map_of (cols sub) ''drug_id'' = None"
    by (simp add: labels_def map_of_eq_None_iff)
  with False show ?thesis by (simp add: drug_id_to_str_def column_def)
qed

lemma drug_id_cells:
  assumes "distinct (labels df)"
  shows "if ''drug_id'' \<in> set (labels df)
         then list_all is_text (column_or_nan (projection env df) ''drug_id'')
         else column_or_nan (projection env df) ''drug_id'' = replicate (nrows df) NaN"
proof (cases "''drug_id'' \<in> set (labels df)")
  case True
  show ?thesis
  proof (cases "column (projection env df) ''drug_id''")
    case None
    then show ?thesis
      using True
      by (simp add: column_or_nan_def projection_def column_drug_id_to_str list_all_iff)
        (auto simp: column_def map_of_eq_None_iff select_cols_def available_cols_def
          cols_to_keep_def labels_def)
  next
    case (Some xs)
    then show ?thesis
      using True
      by (auto simp: column_or_nan_def projection_def column_drug_id_to_str list_all_iff
          is_text_astype_str)
  qed
next
  case False
  then have "''drug_id'' \<notin> set (labels (projection env df))"
    using assms by (simp add: labels_projection set_available_cols)
  then have "column (projection env df) ''drug_id'' = None"
    by (simp add: column_def labels_def map_of_eq_None_iff)
  then show ?thesis using False by (simp add: column_or_nan_def nrows_projection)
qed

lemma set_labels_combined_table:
  "set (labels (combined_table env acc)) =
     {c \<in> set cols_to_keep. \<exists>df \<in> set (kept acc). c \<in> set (labels df)}"
  by (auto simp: labels_combined_table set_uniq set_available_cols)

text \<open>
  C4, as amended. The labels of the combined file are those of the five projected labels
  that some accumulated table has. When \<^verbatim>\<open>drug_id\<close> is one of them, its column is made
  of one run of cells per accumulated table, in order: texts for a table that has a
  \<^verbatim>\<open>drug_id\<close> column, NaN in every row for a table that has none. So the column is all
  text when every accumulated table has a \<^verbatim>\<open>drug_id\<close> column.
\<close>

theorem combined_columns:
  "let st = fetch_all env adme tox fs0; acc = all_datasets st
   in acc \<noteq> [] \<and> write_error env combined_file (combined_table env acc) = None \<longrightarrow>
      (\<exists>t. read_parquet (brick (fst (combiner env st))) combined_file = Inr t
         \<and> set (labels t) = {c \<in> set cols_to_keep. \<exists>df \<in> set acc. c \<in> set (labels df)}
         \<and> (''drug_id'' \<in> set (labels t) \<longrightarrow>
              column t ''drug_id'' =
                Some (concat (map (\<lambda>df. column_or_nan (projection env df) ''drug_id'') acc)))
         \<and> (\<forall>df \<in> set acc.
               if ''drug_id'' \<in> set (labels df)
               then list_all is_text (column_or_nan (projection env df) ''drug_id'')
               else column_or_nan (projection env df) ''drug_id'' = replicate (nrows df) NaN)
         \<and> ((\<forall>df \<in> set acc. ''drug_id'' \<in> set (labels df)) \<longrightarrow>
              (\<exists>xs. column t ''drug_id'' = Some xs \<and> list_all is_text xs)))"
proof -
  let ?st = "fetch_all env adme tox fs0"
  let ?acc = "all_datasets ?st"
  let ?t = "combined_table env ?acc"
  have k: "kept ?acc = ?acc" by (rule kept_fetch_all)
  have 1: "set (labels ?t) = {c \<in> set cols_to_keep. \<exists>df \<in> set ?acc. c \<in> set (labels df)}"
    by (simp add: set_labels_combined_table k)
  have 2: "column ?t ''drug_id'' =
             Some (concat (map (\<lambda>df. column_or_nan (projection env df) ''drug_id'') ?acc))"
    if "''drug_id'' \<in> set (labels ?t)"
    using column_combined_table [OF that] by (simp add: k)
  have 3: "\<forall>df \<in> set ?acc.
               if ''drug_id'' \<in> set (labels df)
               then list_all is_text (column_or_nan (projection env df) ''drug_id'')
               else column_or_nan (projection env df) ''drug_id'' = replicate (nrows df) NaN"
    using drug_id_cells [OF fetch_all_inv(1)] by blast
  have 4: "\<exists>xs. column ?t ''drug_id'' = Some xs \<and> list_all is_text xs"
    if a: "\<forall>df \<in> set ?acc. ''drug_id'' \<in> set (labels df)" and ne: "?acc \<noteq> []"
  proof -
    from ne obtain df where "df \<in> set ?acc" by (cases ?acc) auto
    with a have "''drug_id'' \<in> set (labels ?t)" by (auto simp: 1 cols_to_keep_def)
    then have "column ?t ''drug_id'' =
             Some (concat (map (\<lambda>df. column_or_nan (projection env df) ''drug_id'') ?acc))"
      by (rule 2)
    moreover have "list_all is_text
        (concat (map (\<lambda>df. column_or_nan (projection env df) ''drug_id'') ?acc))"
      using 3 a by (auto simp: list_all_iff)
    ultimately show ?thesis by blast
  qed
  show ?thesis
    unfolding Let_def
  proof (intro impI)
    assume h: "?acc \<noteq> [] \<and> write_error env combined_file ?t = None"
    then have "read_parquet (brick (fst (combiner env ?st))) combined_file = Inr ?t"
      using combiner_fetch_all(1) by blast
    then show "\<exists>t. read_parquet (brick (fst (combiner env ?st))) combined_file = Inr t
         \<and> set (labels t) = {c \<in> set cols_to_keep. \<exists>df \<in> set ?acc. c \<in> set (labels df)}
         \<and> (''drug_id'' \<in> set (labels t) \<longrightarrow>
              column t ''drug_id'' =
                Some (concat (map (\<lambda>df. column_or_nan (projection env df) ''drug_id'') ?acc)))
         \<and> (\<forall>df \<in> set ?acc.
               if ''drug_id'' \<in> set (labels df)
               then list_all is_text (column_or_nan (projection env df) ''drug_id'')
               else column_or_nan (projection env df) ''drug_id'' = replicate (nrows df) NaN)
         \<and> ((\<forall>df \<in> set ?acc. ''drug_id'' \<in> set (labels df)) \<longrightarrow>
              (\<exists>xs. column t ''drug_id'' = Some xs \<and> list_all is_text xs))"
      using 1 2 3 4 h by blast
  qed
qed

lemma brick_run:
  assumes "mkdir_error env = None" and "snd (fetch_loops env adme tox fs0) = None"
  shows "brick (fst (run env adme tox fs0)) =
           brick (fst (combiner env (fetch_all env adme tox fs0)))"
proof (cases "combiner env (fetch_all env adme tox fs0)")
  case (Pair st r)
  obtain st2 r2 where p: "reporter st = (st2, r2)"
    by (cases "reporter st")
  then have "brick st2 = brick st" using brick_reporter [of st] by simp
  then show ?thesis
    using Pair p by (cases r) (simp_all add: run_complete [OF assms])
qed

lemma accumulator_mock_two:
  "all_datasets (fetch_all mock_env [''Caco2_Wang'', ''PAMPA_NCATS''] [] fs0) = [mock_annotated]"
  by (simp add: fetch_all_eq loops_mock fetched_mock_two fetched_Nil)

lemma projection_mock_annotated:
  "projection mock_env mock_annotated =
     \<lparr>index = [0, 1, 2],
      cols = [(''drug_id'', [Text ''D1'', Text ''D2'', Text ''D3'']),
              (''drug'', [Text ''C'', Text ''CC'', Text ''CCO'']),
              (''y'', [Val 1, Val 0, Val 1]),
              (''dataset'', [Text ''Caco2_Wang'', Text ''Caco2_Wang'', Text ''Caco2_Wang'']),
              (''category'', [Text ''ADME'', Text ''ADME'', Text ''ADME''])]\<rparr>"
  by (simp add: projection_def available_mock_annotated)
    (simp add: mock_annotated_def labels_def select_cols_def drug_id_to_str_def mock_env_def
      scenario_env_def)

theorem combined_columns_witness:
  "(\<exists>t. read_parquet
          (brick (fst (combiner mixed_env (fetch_all mixed_env adme_datasets tox_datasets []))))
          combined_file = Inr t
        \<and> set (labels t) = {''drug_id'', ''drug'', ''y'', ''dataset'', ''category''}
        \<and> column t ''drug_id'' = Some [Text ''7'', NaN])
   \<and> list_all is_text (column_or_nan (projection mixed_env mixed_adme) ''drug_id'')
   \<and> column_or_nan (projection mixed_env mixed_tox) ''drug_id'' = [NaN]
   \<and> (\<exists>t xs. read_parquet
             (brick (fst (combiner mock_env
                (fetch_all mock_env [''Caco2_Wang'', ''PAMPA_NCATS''] [] []))))
             combined_file = Inr t
           \<and> column t ''drug_id'' = Some xs \<and> list_all is_text xs)"
proof -
  let ?st = "fetch_all mixed_env adme_datasets tox_datasets []"
  have la: "labels mixed_adme = [''drug_id'', ''y'', ''dataset'', ''category'']"
    by (simp add: mixed_adme_def labels_def)
  have lt: "labels mixed_tox = [''drug'', ''y'', ''dataset'', ''category'']"
    by (simp add: mixed_tox_def labels_def)
  have ca: "column_or_nan (projection mixed_env mixed_adme) ''drug_id'' = [Text ''7'']"
    by (simp add: projection_mixed_adme column_or_nan_def column_def)
  have ct: "column_or_nan (projection mixed_env mixed_tox) ''drug_id'' = [NaN]"
    by (simp add: projection_mixed_tox column_or_nan_def column_def nrows_def)
  have "\<exists>t. read_parquet (brick (fst (combiner mixed_env ?st))) combined_file = Inr t
         \<and> set (labels t) = {c \<in> set cols_to_keep.
                                 \<exists>df \<in> set [mixed_adme, mixed_tox]. c \<in> set (labels df)}
         \<and> (''drug_id'' \<in> set (labels t) \<longrightarrow>
              column t ''drug_id'' =
                Some (concat (map (\<lambda>df. column_or_nan (projection mixed_env df) ''drug_id'')
                                [mixed_adme, mixed_tox])))"
    using combined_columns [of mixed_env adme_datasets tox_datasets "[]"]
    unfolding Let_def accumulator_mixed by (auto simp: write_error_mixed)
  then obtain t where r: "read_parquet (brick (fst (combiner mixed_env ?st))) combined_file = Inr t"
    and l: "set (labels t) = {c \<in> set cols_to_keep.
                                 \<exists>df \<in> set [mixed_adme, mixed_tox]. c \<in> set (labels df)}"
    and c: "''drug_id'' \<in> set (labels t) \<Longrightarrow>
              column t ''drug_id'' =
                Some (concat (map (\<lambda>df. column_or_nan (projection mixed_env df) ''drug_id'')
                                [mixed_adme, mixed_tox]))"
    by blast
  have l': "set (labels t) = {''drug_id'', ''drug'', ''y'', ''dataset'', ''category''}"
    unfolding l by (auto simp: cols_to_keep_def la lt)
  then have c': "column t ''drug_id'' = Some [Text ''7'', NaN]"
    using c by (simp add: ca ct)
  have m: "\<exists>t xs. read_parquet
             (brick (fst (combiner mock_env
                (fetch_all mock_env [''Caco2_Wang'', ''PAMPA_NCATS''] [] []))))
             combined_file = Inr t
           \<and> column t ''drug_id'' = Some xs \<and> list_all is_text xs"
    using combined_columns [of mock_env "[''Caco2_Wang'', ''PAMPA_NCATS'']" "[]" "[]"]
    unfolding Let_def accumulator_mock_two
    by (auto simp: write_error_mock labels_mock_annotated)
  show ?thesis using r l' c' ca ct m by auto
qed

text \<open>
  C4 as stated fails: with the fixed lists, an ADME table with a \<^verbatim>\<open>Drug_ID\<close> column
  and a Toxicity table without one, the \<^verbatim>\<open>drug_id\<close> column of the combined file holds
  a NaN, which is no text.
\<close>

theorem combined_drug_id_counterexample:
  "read_column (brick (fst (main mixed_env []))) combined_file ''drug_id'' = Some [Text ''7'', NaN]
   \<and> \<not> list_all is_text [Text ''7'', NaN :: nat cell]"
proof -
  let ?st = "fetch_all mixed_env adme_datasets tox_datasets []"
  have m: "mkdir_error mixed_env = None" by (simp add: mixed_env_def)
  have b: "brick (fst (main mixed_env [])) = brick (fst (combiner mixed_env ?st))"
    unfolding main_def using m loops_mixed by (rule brick_run)
  have r: "read_parquet (brick (fst (combiner mixed_env ?st))) combined_file =
             Inr (combined_table mixed_env [mixed_adme, mixed_tox])"
    using combiner_fetch_all(1) [of mixed_env adme_datasets tox_datasets "[]"]
    by (simp add: accumulator_mixed write_error_mixed)
  have k: "kept [mixed_adme, mixed_tox] = [mixed_adme, mixed_tox]"
    using kept_fetch_all [of mixed_env adme_datasets tox_datasets "[]"]
    by (simp add: accumulator_mixed)
  have "''drug_id'' \<in> set (labels mixed_adme)"
    by (simp add: mixed_adme_def labels_def)
  then have "''drug_id'' \<in> set (labels (combined_table mixed_env [mixed_adme, mixed_tox]))"
    by (simp add: set_labels_combined_table k cols_to_keep_def)
  then have "column (combined_table mixed_env [mixed_adme, mixed_tox]) ''drug_id'' =
               Some (concat (map (\<lambda>df. column_or_nan (projection mixed_env df) ''drug_id'')
                               [mixed_adme, mixed_tox]))"
    using column_combined_table [of "''drug_id''" mixed_env "[mixed_adme, mixed_tox]"]
    by (simp only: k)
  also have "\<dots> = Some [Text ''7'', NaN]"
    by (simp add: projection_mixed_adme projection_mixed_tox column_or_nan_def column_def
        nrows_def)
  finally have "column (combined_table mixed_env [mixed_adme, mixed_tox]) ''drug_id'' =
               Some [Text ''7'', NaN]" .
  then show ?thesis by (simp add: read_column_def b r)
qed

section \<open>The files of the datasets\<close>

lemma output_names_distinct:
  "distinct (map (output_name ADME) adme_datasets @ map (output_name Tox) tox_datasets)"
  by code_simp

lemma output_name_not_combined: "output_name cat n \<noteq> combined_file"
  by (cases cat) (simp_all add: output_name_def combined_file_def)

lemma map_of_write_item_other:
  "p \<noteq> output_name cat n \<Longrightarrow> map_of (write_item env cat n fs) p = map_of fs p"
  by (simp add: write_item_def update_conv' split: sum.splits)

lemma map_of_fold_write_item_other:
  "p \<notin> output_name cat ` set names \<Longrightarrow>
     map_of (fold (write_item env cat) names fs) p = map_of fs p"
  by (induction names arbitrary: fs) (simp_all add: map_of_write_item_other)

lemma map_of_fold_write_item:
  assumes "distinct (map (output_name cat) names)" and "n \<in> set names"
  shows "map_of (fold (write_item env cat) names fs) (output_name cat n) =
           (case item_result env cat n of
              Inl e \<Rightarrow> map_of fs (output_name cat n)
            | Inr df \<Rightarrow> Some (Parquet (drop_index df)))"
  using assms
proof (induction names arbitrary: fs)
  case Nil
  then show ?case by simp
next
  case (Cons m names)
  show ?case
  proof (cases "n = m")
    case True
    then have "output_name cat n \<notin> output_name cat ` set names" using Cons.prems by auto
    then show ?thesis
      using True
      by (simp add: map_of_fold_write_item_other) (simp add: write_item_def update_conv' split: sum.splits)
  next
    case False
    then have n: "n \<in> set names" using Cons.prems by simp
    then have "output_name cat n \<in> output_name cat ` set names" by simp
    then have "output_name cat n \<noteq> output_name cat m"
      and "distinct (map (output_name cat) names)"
      using Cons.prems by auto
    with n show ?thesis
      by (simp add: Cons.IH map_of_write_item_other split: sum.splits)
  qed
qed

lemma map_of_brick_run:
  assumes "mkdir_error env = None" and "snd (fetch_loops env adme tox fs0) = None"
    and "p \<noteq> combined_file"
  shows "map_of (brick (fst (run env adme tox fs0))) p =
           map_of (fold (write_item env Tox) tox (fold (write_item env ADME) adme fs0)) p"
  using assms by (simp add: brick_run map_of_brick_combiner fetch_all_eq)

lemma map_of_brick_main:
  assumes "mkdir_error env = None"
    and "snd (fetch_loops env adme_datasets tox_datasets fs0) = None"
    and "name \<in> set (dataset_list cat)"
  shows "map_of (brick (fst (main env fs0))) (output_name cat name) =
           (case item_result env cat name of
              Inl e \<Rightarrow> map_of fs0 (output_name cat name)
            | Inr df \<Rightarrow> Some (Parquet (drop_index df)))"
proof (cases cat)
  case ADME
  have d: "distinct (map (output_name ADME) adme_datasets)"
    using output_names_distinct by simp
  have "output_name ADME name \<notin> output_name Tox ` set tox_datasets"
    using assms(3) ADME output_names_distinct by auto
  then show ?thesis
    using assms unfolding ADME
    by (simp add: main_def map_of_brick_run output_name_not_combined
        map_of_fold_write_item_other map_of_fold_write_item [OF d] split: sum.splits)
next
  case Tox
  have d: "distinct (map (output_name Tox) tox_datasets)"
    using output_names_distinct by simp
  have "output_name Tox name \<notin> output_name ADME ` set adme_datasets"
    using assms(3) Tox output_names_distinct by auto
  then show ?thesis
    using assms unfolding Tox
    by (simp add: main_def map_of_brick_run output_name_not_combined
        map_of_fold_write_item [OF d] map_of_fold_write_item_other split: sum.splits)
qed

lemma annotate_fresh:
  assumes "''dataset'' \<notin> set (labels data)" and "''category'' \<notin> set (labels data)"
  shows "annotate cat name data =
           \<lparr>index = index data,
            cols = map (\<lambda>(n, xs). (normalize_column n, xs)) (cols data)
                   @ [(''dataset'', replicate (nrows data) (Text name)),
                      (''category'', replicate (nrows data) (Text (category_tag cat)))]\<rparr>"
proof -
  have 1: "set_scalar ''dataset'' (Text name) data =
             data\<lparr>cols := cols data @ [(''dataset'', replicate (nrows data) (Text name))]\<rparr>"
    using assms(1) by (simp add: set_scalar_def)
  have 2: "''category'' \<notin> set (labels (set_scalar ''dataset'' (Text name) data))"
    using assms by (simp add: labels_set_scalar)
  show ?thesis
    using 2 unfolding annotate_def
    by (simp add: set_scalar_def [of "''category''"] nrows_set_scalar)
      (simp add: 1 rename_columns_def normalize_dataset normalize_category)
qed

text \<open>
  C1, as amended. For a name of either list: when the provider returns a table that has no
  column labelled \<^verbatim>\<open>dataset\<close> or \<^verbatim>\<open>category\<close>, the write does not fail (the
  renamed labels are distinct and the environment raises nothing) and no exception escapes
  the two loops (no \<^verbatim>\<open>KeyboardInterrupt\<close> or \<^verbatim>\<open>SystemExit\<close> ends them before or
  after the name), then after the run the file of the dataset reads as a table with the
  provider's columns under their renamed labels, cell for cell, followed by the two columns
  \<^verbatim>\<open>dataset\<close> and \<^verbatim>\<open>category\<close> that hold the name and the category tag in
  every row.
\<close>

theorem dataset_file_contents:
  assumes "name \<in> set (dataset_list cat)"
    and "mkdir_error env = None"
    and "provider env cat name = Inr data"
    and "''dataset'' \<notin> set (labels data)" and "''category'' \<notin> set (labels data)"
    and "distinct (map normalize_column (labels data) @ [''dataset'', ''category''])"
    and "write_error env (output_name cat name) (annotate cat name data) = None"
    and "snd (fetch_loops env adme_datasets tox_datasets fs0) = None"
  shows "read_parquet (brick (fst (main env fs0))) (output_name cat name) =
           Inr \<lparr>index = range_index (nrows data),
                cols = map (\<lambda>(n, xs). (normalize_column n, xs)) (cols data)
                       @ [(''dataset'', replicate (nrows data) (Text name)),
                          (''category'', replicate (nrows data) (Text (category_tag cat)))]\<rparr>"
proof -
  note a = annotate_fresh [OF assms(4,5), of cat name]
  have l: "labels (annotate cat name data) =
             map normalize_column (labels data) @ [''dataset'', ''category'']"
    by (simp add: a labels_def comp_def case_prod_beta)
  have "item_result env cat name = Inr (annotate cat name data)"
    using assms(3,6,7) by (simp add: item_result_def l)
  then have "map_of (brick (fst (main env fs0))) (output_name cat name) =
               Some (Parquet (drop_index (annotate cat name data)))"
    using map_of_brick_main [OF assms(2,8,1)] by simp
  moreover have "drop_index (annotate cat name data) =
           \<lparr>index = range_index (nrows data),
            cols = map (\<lambda>(n, xs). (normalize_column n, xs)) (cols data)
                   @ [(''dataset'', replicate (nrows data) (Text name)),
                      (''category'', replicate (nrows data) (Text (category_tag cat)))]\<rparr>"
    by (simp add: drop_index_def nrows_annotate) (simp add: a)
  ultimately show ?thesis by (simp add: read_parquet_def)
qed

lemma Caco2_in_list: "''Caco2_Wang'' \<in> set (dataset_list ADME)"
  by (simp add: adme_datasets_def)

lemma PAMPA_in_list: "''PAMPA_NCATS'' \<in> set (dataset_list ADME)"
  by (simp add: adme_datasets_def)

lemma hERG_in_list: "''hERG'' \<in> set (dataset_list Tox)"
  by (simp add: tox_datasets_def)

theorem dataset_file_contents_witness:
  "read_parquet (brick (fst (main mock_env []))) (output_name ADME ''Caco2_Wang'') =
     Inr mock_annotated"
proof -
  have p: "provider mock_env ADME ''Caco2_Wang'' = Inr mock_table"
    by (simp add: mock_env_def scenario_env_def)
  have l: "labels mock_table = [''Drug_ID'', ''Drug'', ''Y'']"
    by (simp add: mock_table_def scenario_table_def labels_def)
  have d: "distinct (map normalize_column (labels mock_table) @ [''dataset'', ''category''])"
    by (simp add: l normalize_Drug_ID normalize_Drug normalize_Y)
  have n: "nrows mock_table = 3" by (simp add: mock_table_def scenario_table_def nrows_def)
  have r: "range_index (Suc (Suc (Suc 0))) = [0, 1, 2]" by (simp add: range_index_def upt_rec)
  show ?thesis
    using dataset_file_contents [OF Caco2_in_list mkdir_mock p _ _ d write_error_mock loops_mock,
        of "[]"]
    by (simp add: l n numeral_3_eq_3)
      (simp add: mock_table_def scenario_table_def mock_annotated_def normalize_Drug_ID
        normalize_Drug normalize_Y r)
qed

lemma item_result_overlap_adme:
  "item_result overlap_env ADME ''Caco2_Wang'' =
     Inr \<lparr>index = [0],
          cols = [(''drug'', [Text ''CCO'']), (''dataset'', [Text ''Caco2_Wang'']),
                  (''category'', [Text ''ADME''])]\<rparr>"
  by (simp add: item_result_def overlap_env_def annotate_def set_scalar_def labels_def nrows_def
      rename_columns_def normalize_Drug normalize_dataset normalize_category)

lemma normalize_Dataset: "normalize_column ''Dataset'' = ''dataset''"
  by code_simp

lemma item_result_overlap_tox:
  "item_result overlap_env Tox ''hERG'' = Inl (Exception ''Duplicate column names found'')"
  by (simp add: item_result_def overlap_env_def annotate_def set_scalar_def labels_def nrows_def
      rename_columns_def normalize_Drug normalize_Dataset normalize_dataset normalize_category)

text \<open>
  C1 as stated fails. A provider table that already has a \<^verbatim>\<open>dataset\<close> column gets
  one more column, not two, and the column's cells are overwritten; a provider table with
  a \<^verbatim>\<open>Dataset\<close> column gets no file, although the provider call succeeded.
\<close>

theorem dataset_file_counterexample:
  "provider overlap_env ADME ''Caco2_Wang'' =
     Inr \<lparr>index = [0], cols = [(''Drug'', [Text ''CCO'']), (''dataset'', [Text ''old''])]\<rparr>
   \<and> read_parquet (brick (fst (main overlap_env []))) (output_name ADME ''Caco2_Wang'') =
       Inr \<lparr>index = [0],
            cols = [(''drug'', [Text ''CCO'']), (''dataset'', [Text ''Caco2_Wang'']),
                    (''category'', [Text ''ADME''])]\<rparr>
   \<and> provider overlap_env Tox ''hERG'' =
       Inr \<lparr>index = [0], cols = [(''Drug'', [Text ''CCO'']), (''Dataset'', [Text ''old''])]\<rparr>
   \<and> read_parquet (brick (fst (main overlap_env []))) (output_name Tox ''hERG'') =
       Inl ''No such file or directory''"
proof -
  have m: "mkdir_error overlap_env = None" by (simp add: overlap_env_def)
  have c: "snd (fetch_loops overlap_env adme_datasets tox_datasets []) = None"
    by (rule never_escaping) (simp_all add: overlap_env_def)
  have 1: "map_of (brick (fst (main overlap_env []))) (output_name ADME ''Caco2_Wang'') =
             Some (Parquet \<lparr>index = [0],
                cols = [(''drug'', [Text ''CCO'']), (''dataset'', [Text ''Caco2_Wang'']),
                        (''category'', [Text ''ADME''])]\<rparr>)"
    by (simp add: map_of_brick_main [OF m c Caco2_in_list] item_result_overlap_adme
        drop_index_def nrows_def range_index_def)
  have 2: "map_of (brick (fst (main overlap_env []))) (output_name Tox ''hERG'') = None"
    by (simp add: map_of_brick_main [OF m c hERG_in_list] item_result_overlap_tox)
  show ?thesis
    using 1 2 by (simp add: read_parquet_def) (simp add: overlap_env_def)
qed

section \<open>Failed items\<close>

lemma is_processing_Cons:
  "is_processing (c # d # r) \<Longrightarrow> c = nl \<and> d = CHR ''P''"
  by (simp add: is_processing_def)

lemma is_processing_line: "is_processing (processing_line cat name)"
  by (simp add: is_processing_def processing_line_def)

lemma not_processing_error: "\<not> is_processing (error_line e)"
  using is_processing_Cons [of "CHR '' ''" "CHR '' ''"] by (auto simp add: error_line_def nl_def)

lemma not_processing_saved: "\<not> is_processing (saved_line n f)"
  using is_processing_Cons [of "CHR '' ''" "CHR '' ''"] by (auto simp add: saved_line_def nl_def)

lemma rule60_Cons: "rule60 = CHR ''='' # CHR ''='' # replicate 58 (CHR ''='')"
  by (simp add: rule60_def numeral_eq_Suc)

lemma not_processing_rule: "\<not> is_processing rule60"
  using is_processing_Cons [of "CHR ''=''" "CHR ''=''" "replicate 58 (CHR ''='')"]
  by (auto simp: rule60_Cons nl_def)

lemma not_processing_nl_rule: "\<not> is_processing (nl # rule60)"
  using is_processing_Cons [of nl "CHR ''=''" "CHR ''='' # replicate 58 (CHR ''='')"]
  by (auto simp: rule60_Cons)

lemma not_processing_combined: "\<not> is_processing (combined_line n)"
  using is_processing_Cons [of nl "CHR ''C''"] by (auto simp add: combined_line_def)

lemma not_processing_file: "\<not> is_processing (file_line f n)"
  using is_processing_Cons [of "CHR '' ''" "CHR '' ''"] by (auto simp add: file_line_def nl_def)

lemma not_processing_total: "\<not> is_processing (total_line a b)"
  using is_processing_Cons [of nl "CHR ''T''"] by (auto simp add: total_line_def)

lemma not_processing_titles:
  shows "\<not> is_processing ''Downloading ADME datasets from TDC...''"
    and "\<not> is_processing ''Downloading Toxicity datasets from TDC...''"
    and "\<not> is_processing ''Creating combined dataset...''"
    and "\<not> is_processing ''Output files:''"
  by (simp_all add: is_processing_def nl_def)

lemma processing_item_lines:
  "filter is_processing (concat (map (item_lines env cat) names)) = map (processing_line cat) names"
  by (induction names)
    (simp_all add: item_lines_def is_processing_line not_processing_error not_processing_saved
      split: sum.splits raised.splits)

lemma processing_fetch_all:
  "filter is_processing (console (fetch_all env adme tox fs0)) =
     (case first_escaping env ADME adme of
        Some e \<Rightarrow> map (processing_line ADME) (through env ADME adme)
      | None \<Rightarrow> map (processing_line ADME) adme @ map (processing_line Tox) (through env Tox tox))"
  by (simp add: fetch_all_def fetch_loops_eq processing_item_lines not_processing_rule
      not_processing_nl_rule not_processing_titles split: option.splits)

lemma processing_combiner:
  "filter is_processing (console (fst (combiner env st))) = filter is_processing (console st)"
  by (simp add: combiner_def Let_def banner_nl_def not_processing_rule not_processing_nl_rule
      not_processing_titles not_processing_combined split: sum.splits option.splits)

lemma processing_report_lines: "filter is_processing (report_lines fs files) = []"
  by (simp add: report_lines_def not_processing_rule not_processing_nl_rule
      not_processing_titles not_processing_file filter_empty_conv)

lemma processing_reporter:
  "filter is_processing (console (fst (reporter st))) = filter is_processing (console st)"
  by (simp add: reporter_eq Let_def processing_report_lines not_processing_total
      split: option.splits)

lemma processing_run:
  assumes "mkdir_error env = None"
  shows "filter is_processing (console (fst (run env adme tox fs0))) =
           filter is_processing (console (fetch_all env adme tox fs0))"
proof (cases "snd (fetch_loops env adme tox fs0)")
  case (Some e)
  then show ?thesis using assms by (simp add: run_interrupted)
next
  case None
  obtain st r where c: "combiner env (fetch_all env adme tox fs0) = (st, r)"
    by (cases "combiner env (fetch_all env adme tox fs0)")
  then have 1: "filter is_processing (console st) =
               filter is_processing (console (fetch_all env adme tox fs0))"
    using processing_combiner [of env "fetch_all env adme tox fs0"] by simp
  obtain st2 r2 where p: "reporter st = (st2, r2)"
    by (cases "reporter st")
  then have 2: "filter is_processing (console st2) = filter is_processing (console st)"
    using processing_reporter [of st] by simp
  show ?thesis
    using c p 1 2 by (cases r) (simp_all add: run_complete [OF assms None])
qed

lemma process_item_failed:
  assumes "item_result env cat name = Inl (Exception e)"
  shows "process_item env cat name st =
           (st\<lparr>console := console st @ [processing_line cat name, error_line e]\<rparr>, None)"
  unfolding process_item_eq
  by (simp add: assms write_item_def item_lines_def fetched_def escaping_def)

lemma to_parquet_Inl:
  "to_parquet env path df fs = Inl e \<longleftrightarrow>
     (if \<not> distinct (labels df) then e = Exception ''Duplicate column names found''
      else write_error env path df = Some e)"
  by (cases "write_error env path df")
    (simp_all add: to_parquet_def eq_commute [of "Exception ''Duplicate column names found''"])

lemma item_result_failure:
  "item_result env cat name = Inl e \<longleftrightarrow>
     provider env cat name = Inl e
     \<or> (\<exists>data. provider env cat name = Inr data
          \<and> to_parquet env (output_name cat name) (annotate cat name data) fs = Inl e)"
proof (cases "provider env cat name")
  case (Inl x)
  then show ?thesis by (simp add: item_result_def)
next
  case (Inr data)
  then show ?thesis
    by (cases "write_error env (output_name cat name) (annotate cat name data)")
      (simp_all add: item_result_def Let_def to_parquet_Inl
        eq_commute [of "Exception ''Duplicate column names found''"])
qed

lemma set_through: "set (through env cat names) \<subseteq> set names"
  by (induction names) auto

lemma map_of_fold_write_item_failed:
  assumes "item_result env cat name = Inl e"
    and "inj_on (output_name cat) (insert name (set names))"
  shows "map_of (fold (write_item env cat) names fs) (output_name cat name) =
           map_of fs (output_name cat name)"
  using assms(2)
proof (induction names arbitrary: fs)
  case Nil
  then show ?case by simp
next
  case (Cons m names)
  then have i: "inj_on (output_name cat) (insert name (set names))"
    by (simp add: inj_on_def)
  have "map_of (write_item env cat m fs) (output_name cat name) =
          map_of fs (output_name cat name)"
  proof (cases "m = name")
    case True
    then show ?thesis using assms(1) by (simp add: write_item_def)
  next
    case False
    then have "output_name cat name \<noteq> output_name cat m"
      using Cons.prems by (auto simp: inj_on_def)
    then show ?thesis by (rule map_of_write_item_other)
  qed
  then show ?case by (simp add: Cons.IH [OF i])
qed

lemma map_of_writes_failed:
  assumes "item_result env cat name = Inl e" and "name \<in> set (dataset_list cat)"
    and "set ns \<subseteq> set (dataset_list c)"
  shows "map_of (fold (write_item env c) ns fs) (output_name cat name) =
           map_of fs (output_name cat name)"
proof (cases "c = cat")
  case True
  have "distinct (map (output_name cat) (dataset_list cat))"
    using output_names_distinct by (cases cat) simp_all
  then have "inj_on (output_name cat) (set (dataset_list cat))"
    by (simp add: distinct_map)
  then have "inj_on (output_name cat) (insert name (set ns))"
    using assms(2,3) True by (auto simp: inj_on_def)
  then show ?thesis
    using True map_of_fold_write_item_failed [OF assms(1)] by simp
next
  case False
  have "output_name ADME a \<noteq> output_name Tox t \<and> output_name Tox t \<noteq> output_name ADME a"
    if "a \<in> set adme_datasets" "t \<in> set tox_datasets" for a t
    using that output_names_distinct by auto
  then have "output_name cat name \<notin> output_name c ` set (dataset_list c)"
    using False assms(2) by (cases cat; cases c) (auto simp: image_iff)
  then have "output_name cat name \<notin> output_name c ` set ns"
    using assms(3) by auto
  then show ?thesis by (rule map_of_fold_write_item_other)
qed

lemma map_of_brick_fetch_all_failed:
  assumes "item_result env cat name = Inl e" and "name \<in> set (dataset_list cat)"
  shows "map_of (brick (fetch_all env adme_datasets tox_datasets fs0)) (output_name cat name) =
           map_of fs0 (output_name cat name)"
proof -
  note w = map_of_writes_failed [OF assms]
  have a: "set (through env ADME adme_datasets) \<subseteq> set (dataset_list ADME)"
    and a': "set adme_datasets \<subseteq> set (dataset_list ADME)"
    and t: "set (through env Tox tox_datasets) \<subseteq> set (dataset_list Tox)"
    by (simp_all add: set_through)
  show ?thesis
    by (simp add: fetch_all_def fetch_loops_eq w [OF a] w [OF a'] w [OF t] split: option.splits)
qed

lemma map_of_brick_run_loops:
  assumes "mkdir_error env = None" and "p \<noteq> combined_file"
  shows "map_of (brick (fst (run env adme tox fs0))) p =
           map_of (brick (fetch_all env adme tox fs0)) p"
proof (cases "snd (fetch_loops env adme tox fs0)")
  case (Some e)
  then show ?thesis using assms(1) by (simp add: run_interrupted)
next
  case None
  then show ?thesis
    using assms by (simp add: brick_run map_of_brick_combiner)
qed

lemma processing_line_PAMPA:
  "processing_line ADME ''PAMPA_NCATS'' = nl # ''Processing ADME/PAMPA_NCATS...''"
  by (simp add: processing_line_def)

lemma processing_line_Caco2:
  "processing_line ADME ''Caco2_Wang'' = nl # ''Processing ADME/Caco2_Wang...''"
  by (simp add: processing_line_def)

lemma item_result_interrupt_Caco2:
  "item_result interrupt_env ADME ''Caco2_Wang'' = Inr mock_annotated"
  by (simp add: item_result_def interrupt_env_def mock_table_def annotate_scenario
      mock_annotated_def labels_def)

lemma item_result_interrupt_PAMPA:
  "item_result interrupt_env ADME ''PAMPA_NCATS'' = Inl (BaseException ''KeyboardInterrupt'')"
  by (simp add: item_result_def interrupt_env_def)

lemma through_interrupt:
  "through interrupt_env ADME adme_datasets = [''Caco2_Wang'', ''PAMPA_NCATS'']"
  by (simp add: adme_datasets_def escaping_def item_result_interrupt_Caco2
      item_result_interrupt_PAMPA)

lemma first_escaping_interrupt:
  "first_escaping interrupt_env ADME adme_datasets = Some (BaseException ''KeyboardInterrupt'')"
  by (simp add: adme_datasets_def escaping_def item_result_interrupt_Caco2
      item_result_interrupt_PAMPA)

text \<open>
  C2, as amended. For a name of either list whose iteration fails with an
  \<^verbatim>\<open>Exception\<close> (the provider call or the write raises one, described by \<open>e\<close>): no
  exception escapes the iteration, which yields the state before it with two more console
  lines, the line that opens the iteration and the line \<^verbatim>\<open>  - Error: \<close> followed by
  the description; the directory and the accumulator are as before. The loop then goes on
  with the names after it, from that state. After the run the path of that dataset holds
  what it held before the run. When no other exception escapes the two loops, the console
  shows that every name of both lists was attempted, in list order, the ADME list first.
\<close>

theorem failed_item_is_skipped:
  assumes "name \<in> set (dataset_list cat)"
    and "mkdir_error env = None"
    and "provider env cat name = Inl (Exception e)
         \<or> (\<exists>data. provider env cat name = Inr data
              \<and> to_parquet env (output_name cat name) (annotate cat name data) (brick st)
                  = Inl (Exception e))"
  shows "process_item env cat name st =
           (st\<lparr>console := console st
                  @ [nl # ''Processing '' @ category_slash cat @ name @ ''...'',
                     ''  - Error: '' @ e]\<rparr>, None)
       \<and> for_each (process_item env cat) (name # rest) st =
           for_each (process_item env cat) rest
             (st\<lparr>console := console st
                  @ [nl # ''Processing '' @ category_slash cat @ name @ ''...'',
                     ''  - Error: '' @ e]\<rparr>)
       \<and> map_of (brick (fst (main env fs0))) (output_name cat name) =
           map_of fs0 (output_name cat name)
       \<and> (snd (fetch_loops env adme_datasets tox_datasets fs0) = None \<longrightarrow>
            filter is_processing (console (fst (main env fs0))) =
              map (\<lambda>n. nl # ''Processing ADME/'' @ n @ ''...'') adme_datasets
              @ map (\<lambda>n. nl # ''Processing Tox/'' @ n @ ''...'') tox_datasets)"
proof -
  have f: "item_result env cat name = Inl (Exception e)"
    using assms(3) by (simp only: item_result_failure [of env cat name "Exception e" "brick st"])
  have 1: "process_item env cat name st =
           (st\<lparr>console := console st
                  @ [nl # ''Processing '' @ category_slash cat @ name @ ''...'',
                     ''  - Error: '' @ e]\<rparr>, None)"
    using process_item_failed [OF f, of st] by (simp add: processing_line_def error_line_def)
  have 2: "for_each (process_item env cat) (name # rest) st =
           for_each (process_item env cat) rest
             (st\<lparr>console := console st
                  @ [nl # ''Processing '' @ category_slash cat @ name @ ''...'',
                     ''  - Error: '' @ e]\<rparr>)"
    unfolding for_each.simps 1 by simp
  have 3: "map_of (brick (fst (main env fs0))) (output_name cat name) =
           map_of fs0 (output_name cat name)"
    unfolding main_def
    by (simp add: map_of_brick_run_loops [OF assms(2)] output_name_not_combined
        map_of_brick_fetch_all_failed [OF f assms(1)])
  have 4: "filter is_processing (console (fst (main env fs0))) =
              map (\<lambda>n. nl # ''Processing ADME/'' @ n @ ''...'') adme_datasets
              @ map (\<lambda>n. nl # ''Processing Tox/'' @ n @ ''...'') tox_datasets"
    if c: "snd (fetch_loops env adme_datasets tox_datasets fs0) = None"
  proof -
    from c have a: "first_escaping env ADME adme_datasets = None"
      and t: "first_escaping env Tox tox_datasets = None"
      by (auto simp: fetch_loops_snd split: option.splits)
    have p: "processing_line ADME = (\<lambda>n. nl # ''Processing ADME/'' @ n @ ''...'')"
      "processing_line Tox = (\<lambda>n. nl # ''Processing Tox/'' @ n @ ''...'')"
      by (simp_all add: processing_line_def fun_eq_iff)
    show ?thesis
      unfolding main_def processing_run [OF assms(2)] processing_fetch_all a
        through_complete [OF t] p
      by simp
  qed
  show ?thesis using 1 2 3 4 by (intro conjI impI)
qed

theorem failed_item_is_skipped_witness:
  "process_item mock_env ADME ''PAMPA_NCATS'' empty_state =
     (empty_state\<lparr>console := [nl # ''Processing ADME/PAMPA_NCATS...'',
                               ''  - Error: fetch failed'']\<rparr>, None)
   \<and> for_each (process_item mock_env ADME) [''PAMPA_NCATS'', ''HIA_Hou''] empty_state =
       for_each (process_item mock_env ADME) [''HIA_Hou'']
         (empty_state\<lparr>console := [nl # ''Processing ADME/PAMPA_NCATS...'',
                                   ''  - Error: fetch failed'']\<rparr>)
   \<and> map_of (brick (fst (main mock_env []))) (output_name ADME ''PAMPA_NCATS'') = None
   \<and> filter is_processing (console (fst (main mock_env []))) =
       map (\<lambda>n. nl # ''Processing ADME/'' @ n @ ''...'') adme_datasets
       @ map (\<lambda>n. nl # ''Processing Tox/'' @ n @ ''...'') tox_datasets"
proof -
  have "provider mock_env ADME ''PAMPA_NCATS'' = Inl (Exception ''fetch failed'')"
    by (simp add: mock_env_def scenario_env_def)
  then have f: "provider mock_env ADME ''PAMPA_NCATS'' = Inl (Exception ''fetch failed'')
         \<or> (\<exists>data. provider mock_env ADME ''PAMPA_NCATS'' = Inr data
              \<and> to_parquet mock_env (output_name ADME ''PAMPA_NCATS'')
                    (annotate ADME ''PAMPA_NCATS'' data) (brick empty_state)
                  = Inl (Exception ''fetch failed''))"
    by (rule disjI1)
  have c: "console empty_state = []" by (simp add: empty_state_def)
  show ?thesis
    using failed_item_is_skipped [OF PAMPA_in_list mkdir_mock f, of "[''HIA_Hou'']" "[]"]
    by (simp add: c loops_mock)
qed

text \<open>
  C2 as stated fails for a failure that is no \<^verbatim>\<open>Exception\<close>. With a
  \<^verbatim>\<open>KeyboardInterrupt\<close> during the provider call of the second ADME name, the
  exception escapes the iteration and the run, no message is printed for it, and no name
  after it is attempted.
\<close>

theorem failed_item_counterexample:
  "provider interrupt_env ADME ''PAMPA_NCATS'' = Inl (BaseException ''KeyboardInterrupt'')
   \<and> process_item interrupt_env ADME ''PAMPA_NCATS'' empty_state =
       (empty_state\<lparr>console := [nl # ''Processing ADME/PAMPA_NCATS...'']\<rparr>,
        Some (BaseException ''KeyboardInterrupt''))
   \<and> snd (main interrupt_env []) = Some (BaseException ''KeyboardInterrupt'')
   \<and> filter is_processing (console (fst (main interrupt_env []))) =
       [nl # ''Processing ADME/Caco2_Wang...'', nl # ''Processing ADME/PAMPA_NCATS...'']"
proof -
  have 1: "provider interrupt_env ADME ''PAMPA_NCATS'' = Inl (BaseException ''KeyboardInterrupt'')"
    by (simp add: interrupt_env_def)
  have 2: "process_item interrupt_env ADME ''PAMPA_NCATS'' empty_state =
       (empty_state\<lparr>console := [nl # ''Processing ADME/PAMPA_NCATS...'']\<rparr>,
        Some (BaseException ''KeyboardInterrupt''))"
    by (simp add: process_item_eq write_item_def item_lines_def fetched_def escaping_def
        item_result_interrupt_PAMPA processing_line_PAMPA empty_state_def)
  have m: "mkdir_error interrupt_env = None" by (simp add: interrupt_env_def)
  have l: "snd (fetch_loops interrupt_env adme_datasets tox_datasets []) =
             Some (BaseException ''KeyboardInterrupt'')"
    by (simp add: fetch_loops_snd first_escaping_interrupt)
  have r: "main interrupt_env [] =
             (fetch_all interrupt_env adme_datasets tox_datasets [],
              Some (BaseException ''KeyboardInterrupt''))"
    unfolding main_def using m l by (rule run_interrupted)
  have 4: "filter is_processing (console (fetch_all interrupt_env adme_datasets tox_datasets [])) =
       [nl # ''Processing ADME/Caco2_Wang...'', nl # ''Processing ADME/PAMPA_NCATS...'']"
    by (simp add: processing_fetch_all first_escaping_interrupt through_interrupt
        processing_line_PAMPA processing_line_Caco2)
  show ?thesis using 1 2 4 by (simp add: r)
qed

section \<open>The report\<close>

lemma set_glob_parquet:
  "set (glob_parquet fs) = {f \<in> fst ` set fs. ends_with ''.parquet'' f}"
  by (auto simp: glob_parquet_def)

lemma distinct_glob_parquet: "distinct (glob_parquet fs)"
  by (simp add: glob_parquet_def)

lemma reporter_all_datasets:
  "reporter (st\<lparr>all_datasets := ds\<rparr>) =
     (case reporter st of (s, r) \<Rightarrow> (s\<lparr>all_datasets := ds\<rparr>, r))"
  by (simp add: reporter_eq Let_def split: option.splits)

text \<open>
  C8. The reporter lists the names of the directory that end in \<^verbatim>\<open>.parquet\<close>, sorted and
  each once, and reads every one of them back. When all of them read, it prints the heading,
  one line per file with the name and the row count read from the disk
  (\<^verbatim>\<open>  - name: n rows\<close>), in sorted order, and the total line with the sum of those
  row counts and the number of files (\<^verbatim>\<open>Total: n records across k files\<close> after an
  empty line), and the run completes.
  When one does not read, the run ends with the exception of the first such file, after
  the lines of the files before it and without a total line. What it prints depends on the
  directory only, not on \<^verbatim>\<open>all_datasets\<close>.
\<close>

theorem reporter_report:
  "let fs = brick st; files = sort (glob_parquet fs)
   in sorted files \<and> distinct files
    \<and> set files = {f \<in> fst ` set fs. ends_with ''.parquet'' f}
    \<and> (if list_all (readable fs) files
        then reporter st =
               (st\<lparr>console := console st
                         @ [nl # replicate 60 (CHR ''=''), ''Output files:'',
                            replicate 60 (CHR ''='')]
                         @ map (\<lambda>f. ''  - '' @ f @ '': '' @ str_nat (rows_on_disk fs f) @ '' rows'')
                             files
                         @ [nl # ''Total: '' @ str_nat (sum_list (map (rows_on_disk fs) files))
                              @ '' records across '' @ str_nat (length files) @ '' files'']\<rparr>,
                None)
        else reporter st =
               (st\<lparr>console := console st
                         @ [nl # replicate 60 (CHR ''=''), ''Output files:'',
                            replicate 60 (CHR ''='')]
                         @ map (\<lambda>f. ''  - '' @ f @ '': '' @ str_nat (rows_on_disk fs f) @ '' rows'')
                             (takeWhile (readable fs) files)\<rparr>,
                read_error fs (hd (dropWhile (readable fs) files)))
             \<and> read_error fs (hd (dropWhile (readable fs) files)) \<noteq> None)
    \<and> reporter (st\<lparr>all_datasets := ds\<rparr>) =
        (case reporter st of (s, r) \<Rightarrow> (s\<lparr>all_datasets := ds\<rparr>, r))"
proof -
  let ?fs = "brick st"
  let ?files = "sort (glob_parquet ?fs)"
  have 1: "sorted ?files \<and> distinct ?files
             \<and> set ?files = {f \<in> fst ` set ?fs. ends_with ''.parquet'' f}"
    by (simp add: distinct_glob_parquet set_glob_parquet)
  have 2: "reporter st =
               (st\<lparr>console := console st @ [nl # rule60, ''Output files:'', rule60]
                         @ map (\<lambda>f. file_line f (rows_on_disk ?fs f)) ?files
                         @ [total_line (sum_list (map (rows_on_disk ?fs) ?files)) (length ?files)]\<rparr>,
                None)"
    if a: "list_all (readable ?fs) ?files"
  proof -
    have f: "first_read_error ?fs ?files = None" using a by (simp add: first_read_error_None)
    have t: "takeWhile (readable ?fs) ?files = ?files"
      using a by (simp add: list_all_iff takeWhile_eq_all_conv)
    show ?thesis unfolding reporter_eq Let_def report_lines_def f t by simp
  qed
  have 3: "reporter st =
               (st\<lparr>console := console st @ [nl # rule60, ''Output files:'', rule60]
                         @ map (\<lambda>f. file_line f (rows_on_disk ?fs f))
                             (takeWhile (readable ?fs) ?files)\<rparr>,
                read_error ?fs (hd (dropWhile (readable ?fs) ?files)))
             \<and> read_error ?fs (hd (dropWhile (readable ?fs) ?files)) \<noteq> None"
    if a: "\<not> list_all (readable ?fs) ?files"
  proof -
    from a have "dropWhile (readable ?fs) ?files \<noteq> []"
      by (simp add: list_all_iff dropWhile_eq_Nil_conv)
    then obtain f rest where d: "dropWhile (readable ?fs) ?files = f # rest"
      by (cases "dropWhile (readable ?fs) ?files") auto
    then have "\<not> readable ?fs f" using hd_dropWhile [of "readable ?fs" ?files] by simp
    then obtain e where e: "read_error ?fs f = Some e" by (auto simp: readable_def)
    then have "first_read_error ?fs ?files = Some e" by (simp add: first_read_error_def d)
    then show ?thesis using e d by (simp add: reporter_eq Let_def report_lines_def)
  qed
  have l: "file_line = (\<lambda>f n. ''  - '' @ f @ '': '' @ str_nat n @ '' rows'')"
    "total_line = (\<lambda>n k. nl # ''Total: '' @ str_nat n @ '' records across '' @ str_nat k
                            @ '' files'')"
    by (simp_all add: file_line_def total_line_def fun_eq_iff)
  show ?thesis
    unfolding Let_def
    using 1 2 [unfolded l rule60_def] 3 [unfolded l rule60_def] reporter_all_datasets [of ds st]
    by simp
qed

lemma nrows_unprojected: "nrows unprojected_table = 2"
  by (simp add: unprojected_table_def nrows_def)

lemma sort_a_b: "sort [''b.parquet'', ''a.parquet''] = [''a.parquet'', ''b.parquet'']"
  by simp

lemma str_nat_2: "str_nat 2 = ''2''"
  by code_simp

lemma str_nat_3: "str_nat 3 = ''3''"
  by code_simp

lemma str_nat_5: "str_nat 5 = ''5''"
  by code_simp

theorem reporter_report_witness:
  "reporter report_state =
     (report_state\<lparr>console := [nl # replicate 60 (CHR ''=''), ''Output files:'',
                                replicate 60 (CHR ''=''),
                                ''  - a.parquet: 3 rows'', ''  - b.parquet: 2 rows'',
                                nl # ''Total: 5 records across 2 files'']\<rparr>, None)
   \<and> reporter corrupt_state =
       (corrupt_state\<lparr>console := [nl # replicate 60 (CHR ''=''), ''Output files:'',
                                 replicate 60 (CHR ''='')]\<rparr>, Some ''corrupt'')"
proof -
  have g1: "glob_parquet (brick report_state) = [''b.parquet'', ''a.parquet'']"
    by (simp add: glob_parquet_def report_state_def ends_with_def)
  have g2: "glob_parquet (brick corrupt_state) = [''b.parquet'', ''a.parquet'']"
    by (simp add: glob_parquet_def corrupt_state_def ends_with_def)
  have r1: "read_parquet (brick report_state) ''a.parquet'' = Inr mock_annotated"
    "read_parquet (brick report_state) ''b.parquet'' = Inr unprojected_table"
    by (simp_all add: read_parquet_def report_state_def)
  have r2: "read_parquet (brick corrupt_state) ''a.parquet'' = Inl ''corrupt''"
    by (simp add: read_parquet_def corrupt_state_def)
  have c: "console report_state = []" "console corrupt_state = []"
    by (simp_all add: report_state_def corrupt_state_def)
  have n: "str_nat (Suc (Suc 0)) = ''2''" using str_nat_2 by (simp add: numeral_2_eq_2)
  have 1: "reporter report_state =
     (report_state\<lparr>console := [nl # replicate 60 (CHR ''=''), ''Output files:'',
                                replicate 60 (CHR ''=''),
                                ''  - a.parquet: 3 rows'', ''  - b.parquet: 2 rows'',
                                nl # ''Total: 5 records across 2 files'']\<rparr>, None)"
    using reporter_report [of report_state "[]"]
    unfolding Let_def g1 sort_a_b
    by (simp add: readable_def read_error_def rows_on_disk_def r1 c nrows_mock_annotated
        nrows_unprojected str_nat_2 str_nat_3 str_nat_5 n)
  have 2: "reporter corrupt_state =
       (corrupt_state\<lparr>console := [nl # replicate 60 (CHR ''=''), ''Output files:'',
                                 replicate 60 (CHR ''='')]\<rparr>, Some ''corrupt'')"
    using reporter_report [of corrupt_state "[]"]
    unfolding Let_def g2 sort_a_b
    by (simp add: readable_def read_error_def rows_on_disk_def r2 c)
  show ?thesis using 1 2 by (rule conjI)
qed

section \<open>The total of the report\<close>

lemma update_fresh: "k \<notin> fst ` set fs \<Longrightarrow> AList.update k v fs = fs @ [(k, v)]"
  by (induction fs) auto

lemma write_item_fresh:
  "output_name cat n \<notin> fst ` set fs \<Longrightarrow> write_item env cat n fs = fs @ written env cat [n]"
  by (simp add: write_item_def written_def update_fresh split: sum.splits)

lemma keys_written: "fst ` set (written env cat names) \<subseteq> output_name cat ` set names"
  by (auto simp: written_def split: sum.splits)

lemma written_Cons: "written env cat (n # names) = written env cat [n] @ written env cat names"
  by (simp add: written_def)

lemma fold_write_item_fresh:
  assumes "distinct (map (output_name cat) names)"
    and "\<forall>n \<in> set names. output_name cat n \<notin> fst ` set fs"
  shows "fold (write_item env cat) names fs = fs @ written env cat names"
  using assms
proof (induction names arbitrary: fs)
  case Nil
  show ?case by (simp add: written_def)
next
  case (Cons n names)
  have w: "write_item env cat n fs = fs @ written env cat [n]"
    using Cons.prems(2) by (simp add: write_item_fresh)
  have "\<forall>m \<in> set names. output_name cat m \<notin> fst ` set (fs @ written env cat [n])"
  proof
    fix m assume m: "m \<in> set names"
    then have "output_name cat m \<in> output_name cat ` set names" by simp
    then have "output_name cat m \<noteq> output_name cat n" using Cons.prems(1) by auto
    then have "output_name cat m \<notin> fst ` set (written env cat [n])"
      using keys_written [of env cat "[n]"] by auto
    then show "output_name cat m \<notin> fst ` set (fs @ written env cat [n])"
      using Cons.prems(2) m by auto
  qed
  then have "fold (write_item env cat) names (fs @ written env cat [n]) =
               (fs @ written env cat [n]) @ written env cat names"
    using Cons.prems(1) by (intro Cons.IH) simp_all
  then show ?case
    by (simp add: w written_Cons [of env cat n names])
qed

lemma distinct_keys_written:
  "distinct (map (output_name cat) names) \<Longrightarrow> distinct (map fst (written env cat names))"
proof (induction names)
  case Nil
  show ?case by (simp add: written_def)
next
  case (Cons n names)
  have "output_name cat n \<notin> fst ` set (written env cat names)"
    using Cons.prems keys_written [of env cat names] by auto
  then show ?case
    using Cons by (simp add: written_Cons [of env cat n names]) (auto simp: written_def split: sum.splits)
qed

lemma rows_written:
  "sum_list (map (\<lambda>p. file_rows (snd p)) (written env cat names)) =
     sum_list (map nrows (fetched env cat names))"
  by (induction names)
    (simp_all add: written_def fetched_def drop_index_def nrows_def range_index_def
      split: sum.splits)

lemma length_written: "length (written env cat names) = length (fetched env cat names)"
  by (induction names) (simp_all add: written_def fetched_def split: sum.splits)

lemma ends_with_append: "ends_with suf (xs @ suf)"
  by (simp add: ends_with_def)

lemma ends_with_output_name: "ends_with ''.parquet'' (output_name cat n)"
  using ends_with_append [of "''.parquet''" "path_prefix cat @ lower n"]
  by (simp add: output_name_def)

lemma ends_with_combined: "ends_with ''.parquet'' combined_file"
  by (simp add: ends_with_def combined_file_def)

lemma sum_list_insort:
  "sum_list (map g (insort x xs)) = g x + sum_list (map (g :: string \<Rightarrow> nat) xs)"
  by (induction xs) simp_all

lemma sum_list_sort: "sum_list (map g (sort xs)) = sum_list (map (g :: string \<Rightarrow> nat) xs)"
  by (induction xs) (simp_all add: sum_list_insort)

lemma sum_list_removeAll:
  "distinct xs \<Longrightarrow> c \<in> set xs \<Longrightarrow>
     sum_list (map g (removeAll c xs)) + g c = sum_list (map (g :: string \<Rightarrow> nat) xs)"
  by (induction xs) (auto simp: distinct_removeAll)

lemma no_parquet_keys:
  assumes "glob_parquet fs0 = []" and "ends_with ''.parquet'' k"
  shows "k \<notin> fst ` set fs0"
  using assms by (auto simp: glob_parquet_def filter_empty_conv)

lemma brick_fetch_all_fresh:
  assumes d: "distinct (map (output_name ADME) adme @ map (output_name Tox) tox)"
    and f: "glob_parquet fs0 = []"
    and l: "snd (fetch_loops env adme tox fs0) = None"
  shows "brick (fetch_all env adme tox fs0) = fs0 @ written env ADME adme @ written env Tox tox"
proof -
  have 1: "fold (write_item env ADME) adme fs0 = fs0 @ written env ADME adme"
    using d no_parquet_keys [OF f ends_with_output_name]
    by (intro fold_write_item_fresh) simp_all
  have "\<forall>n \<in> set tox. output_name Tox n \<notin> fst ` set (fs0 @ written env ADME adme)"
  proof
    fix n assume "n \<in> set tox"
    then have "output_name Tox n \<notin> output_name ADME ` set adme" using d by auto
    then have "output_name Tox n \<notin> fst ` set (written env ADME adme)"
      using keys_written [of env ADME adme] by auto
    then show "output_name Tox n \<notin> fst ` set (fs0 @ written env ADME adme)"
      using no_parquet_keys [OF f ends_with_output_name, of Tox n] by auto
  qed
  then have "fold (write_item env Tox) tox (fs0 @ written env ADME adme) =
               (fs0 @ written env ADME adme) @ written env Tox tox"
    using d by (intro fold_write_item_fresh) simp_all
  then show ?thesis by (simp add: fetch_all_eq [OF l] 1)
qed

lemma glob_parquet_fresh:
  assumes "glob_parquet fs0 = []" and "distinct (map fst ws)"
    and "\<forall>k \<in> fst ` set ws. ends_with ''.parquet'' k"
  shows "glob_parquet (fs0 @ ws) = map fst ws"
proof -
  have 0: "filter (ends_with ''.parquet'') (map fst fs0) = []"
    using no_parquet_keys [OF assms(1)] by (auto simp: filter_empty_conv)
  have 1: "filter (ends_with ''.parquet'') (map fst ws) = map fst ws"
    using assms(3) by (auto simp: filter_id_conv)
  have "glob_parquet (fs0 @ ws) = remdups (filter (ends_with ''.parquet'') (map fst (fs0 @ ws)))"
    unfolding glob_parquet_def by (rule remdups_filter [symmetric])
  also have "\<dots> = remdups (map fst ws)" by (simp add: 0 1)
  also have "\<dots> = map fst ws" using assms(2) by (simp add: distinct_remdups_id)
  finally show ?thesis .
qed

lemma rows_on_disk_fresh:
  assumes "glob_parquet fs0 = []" and "distinct (map fst ws)"
    and "\<forall>k \<in> fst ` set ws. ends_with ''.parquet'' k"
  shows "sum_list (map (rows_on_disk (fs0 @ ws)) (map fst ws)) =
           sum_list (map (\<lambda>p. file_rows (snd p)) ws)"
proof -
  have "rows_on_disk (fs0 @ ws) (fst p) = file_rows (snd p)" if p: "p \<in> set ws" for p
  proof -
    have "fst p \<notin> fst ` set fs0"
      using no_parquet_keys [OF assms(1)] assms(3) p by auto
    then have "map_of fs0 (fst p) = None" by (simp add: map_of_eq_None_iff)
    moreover have "map_of ws (fst p) = Some (snd p)"
      using assms(2) p by simp
    ultimately have "map_of (fs0 @ ws) (fst p) = Some (snd p)"
      by (simp add: map_add_def)
    then show ?thesis
      by (cases "snd p") (simp_all add: rows_on_disk_def read_parquet_def)
  qed
  then show ?thesis by (simp add: comp_def cong: map_cong)
qed

lemma run_completed:
  assumes r: "snd (run env adme tox fs0) = None"
    and a: "all_datasets (fst (run env adme tox fs0)) \<noteq> []"
  shows "mkdir_error env = None"
    and "all_datasets (fst (run env adme tox fs0)) = all_datasets (fetch_all env adme tox fs0)"
    and "brick (fst (run env adme tox fs0)) =
           AList.update combined_file
             (Parquet (combined_table env (all_datasets (fetch_all env adme tox fs0))))
             (brick (fetch_all env adme tox fs0))"
    and "last (console (fst (run env adme tox fs0))) =
           total_line
             (sum_list (map (rows_on_disk (brick (fst (run env adme tox fs0))))
                          (sort (glob_parquet (brick (fst (run env adme tox fs0)))))))
             (length (sort (glob_parquet (brick (fst (run env adme tox fs0))))))"
    and "snd (fetch_loops env adme tox fs0) = None"
proof -
  let ?init = "fetch_all env adme tox fs0"
  let ?acc = "all_datasets ?init"
  show m: "mkdir_error env = None"
    using r by (cases "mkdir_error env") (simp_all add: run_def)
  show l: "snd (fetch_loops env adme tox fs0) = None"
  proof (cases "snd (fetch_loops env adme tox fs0)")
    case None
    then show ?thesis .
  next
    case (Some e)
    then show ?thesis using r m by (simp add: run_interrupted)
  qed
  show acc: "all_datasets (fst (run env adme tox fs0)) = ?acc"
    using m by (simp add: all_datasets_run)
  then have ne: "kept ?acc \<noteq> []" using a by (simp add: kept_fetch_all)
  have inv: "\<forall>df \<in> set ?acc. distinct (labels df)"
    using fetch_all_inv(1) by blast
  obtain st1 r1 where c: "combiner env ?init = (st1, r1)" by (cases "combiner env ?init")
  obtain st2 r2 where p: "reporter st1 = (st2, r2)" by (cases "reporter st1")
  have r1: "r1 = None"
    using r c by (cases r1) (simp_all add: run_complete [OF m l])
  have r2: "r2 = None"
    using r c r1 p by (simp add: run_complete [OF m l])
  have w: "write_error env combined_file (combined_table env ?acc) = None"
    using c r1 ne by (simp add: combiner_eq [OF inv] Let_def split: option.splits)
  have b1: "brick st1 =
           AList.update combined_file (Parquet (combined_table env ?acc)) (brick ?init)"
    using c ne w by (auto simp: combiner_eq [OF inv] Let_def)
  have run: "fst (run env adme tox fs0) = fst (reporter st1)"
    using c r1 p by (simp add: run_complete [OF m l])
  show "brick (fst (run env adme tox fs0)) =
           AList.update combined_file (Parquet (combined_table env ?acc)) (brick ?init)"
    by (simp add: run brick_reporter b1)
  have f: "first_read_error (brick st1) (sort (glob_parquet (brick st1))) = None"
    using p r2 by (auto simp: reporter_eq Let_def split: option.splits)
  show "last (console (fst (run env adme tox fs0))) =
           total_line
             (sum_list (map (rows_on_disk (brick (fst (run env adme tox fs0))))
                          (sort (glob_parquet (brick (fst (run env adme tox fs0)))))))
             (length (sort (glob_parquet (brick (fst (run env adme tox fs0))))))"
    unfolding run brick_reporter by (simp add: reporter_eq Let_def f)
qed

lemma fresh_directory:
  assumes d: "distinct (map (output_name ADME) adme @ map (output_name Tox) tox)"
    and f: "glob_parquet fs0 = []"
    and l: "snd (fetch_loops env adme tox fs0) = None"
  shows "glob_parquet (AList.update combined_file (Parquet c) (brick (fetch_all env adme tox fs0))) =
           map fst (written env ADME adme @ written env Tox tox @ [(combined_file, Parquet c)])"
    and "sum_list (map (rows_on_disk
            (AList.update combined_file (Parquet c) (brick (fetch_all env adme tox fs0))))
          (map fst (written env ADME adme @ written env Tox tox @ [(combined_file, Parquet c)]))) =
         sum_list (map nrows (fetched env ADME adme @ fetched env Tox tox)) + nrows c"
proof -
  let ?ws = "written env ADME adme @ written env Tox tox @ [(combined_file, Parquet c)]"
  have b: "brick (fetch_all env adme tox fs0) = fs0 @ written env ADME adme @ written env Tox tox"
    using d f l by (rule brick_fetch_all_fresh)
  have ka: "fst ` set (written env ADME adme) \<subseteq> output_name ADME ` set adme"
    and kt: "fst ` set (written env Tox tox) \<subseteq> output_name Tox ` set tox"
    by (rule keys_written)+
  have nc: "combined_file \<notin> output_name ADME ` set adme"
    "combined_file \<notin> output_name Tox ` set tox"
    using output_name_not_combined by (metis imageE)+
  have "combined_file \<notin> fst ` set (fs0 @ written env ADME adme @ written env Tox tox)"
    using no_parquet_keys [OF f ends_with_combined] ka kt nc by auto
  then have u: "AList.update combined_file (Parquet c) (brick (fetch_all env adme tox fs0)) =
             fs0 @ ?ws"
    by (simp add: b update_fresh)
  have "fst ` set (written env ADME adme) \<inter> fst ` set (written env Tox tox) = {}"
    using ka kt d by auto
  then have dk: "distinct (map fst ?ws)"
    using d ka kt nc
    by (auto simp: distinct_keys_written)
  have ek: "\<forall>k \<in> fst ` set ?ws. ends_with ''.parquet'' k"
    using ka kt ends_with_output_name ends_with_combined by auto
  show "glob_parquet (AList.update combined_file (Parquet c) (brick (fetch_all env adme tox fs0))) =
           map fst ?ws"
    unfolding u using f dk ek by (rule glob_parquet_fresh)
  have "sum_list (map (rows_on_disk (fs0 @ ?ws)) (map fst ?ws)) =
          sum_list (map (\<lambda>p. file_rows (snd p)) ?ws)"
    using f dk ek by (rule rows_on_disk_fresh)
  also have "\<dots> = sum_list (map nrows (fetched env ADME adme @ fetched env Tox tox)) + nrows c"
    by (simp add: rows_written)
  finally show "sum_list (map (rows_on_disk
            (AList.update combined_file (Parquet c) (brick (fetch_all env adme tox fs0))))
          (map fst ?ws)) =
         sum_list (map nrows (fetched env ADME adme @ fetched env Tox tox)) + nrows c"
    unfolding u .
qed

text \<open>
  C10. When the run completes and at least one dataset was written: the combined file is
  one of the files the reporter lists, its row count is the sum of the row counts of the
  accumulated tables, and the total printed in the last line
  (\<^verbatim>\<open>Total: n records across k files\<close> after an empty line) is the sum over the other
  listed files plus the combined file's row count. In a directory that held no
  \<^verbatim>\<open>.parquet\<close> file before the run, the other files are the files of the accumulated
  tables, so the total counts every accumulated row twice and the number of files is one
  more than the number of accumulated tables.
\<close>

theorem total_counts_combined_twice:
  assumes "snd (main env fs0) = None" and "all_datasets (fst (main env fs0)) \<noteq> []"
  shows "let st = fst (main env fs0); fs = brick st; files = sort (glob_parquet fs);
             acc = all_datasets st; others = removeAll combined_file files
         in combined_file \<in> set files
          \<and> rows_on_disk fs combined_file = sum_list (map nrows acc)
          \<and> last (console st) =
              nl # ''Total: ''
                @ str_nat (sum_list (map (rows_on_disk fs) others) + rows_on_disk fs combined_file)
                @ '' records across '' @ str_nat (length files) @ '' files''
          \<and> (glob_parquet fs0 = [] \<longrightarrow>
                sum_list (map (rows_on_disk fs) others) = sum_list (map nrows acc)
              \<and> length files = length acc + 1)"
proof -
  let ?st = "fst (main env fs0)"
  let ?fs = "brick ?st"
  let ?files = "sort (glob_parquet ?fs)"
  let ?init = "fetch_all env adme_datasets tox_datasets fs0"
  let ?acc = "all_datasets ?init"
  let ?c = "combined_table env ?acc"
  note rc = run_completed [OF assms [unfolded main_def], folded main_def]
  have acc: "all_datasets ?st = ?acc" by (rule rc(2))
  have fs: "?fs = AList.update combined_file (Parquet ?c) (brick ?init)" by (rule rc(3))
  have 1: "combined_file \<in> set ?files"
    by (simp add: set_glob_parquet fs dom_update ends_with_combined)
  have 2: "rows_on_disk ?fs combined_file = sum_list (map nrows ?acc)"
    by (simp add: fs rows_on_disk_def read_parquet_update nrows_combined_table kept_fetch_all)
  have s: "sum_list (map (rows_on_disk ?fs) (removeAll combined_file ?files))
             + rows_on_disk ?fs combined_file = sum_list (map (rows_on_disk ?fs) ?files)"
    using 1 by (intro sum_list_removeAll) (simp_all add: distinct_glob_parquet)
  have 3: "last (console ?st) =
              nl # ''Total: ''
                @ str_nat (sum_list (map (rows_on_disk ?fs) (removeAll combined_file ?files))
                            + rows_on_disk ?fs combined_file)
                @ '' records across '' @ str_nat (length ?files) @ '' files''"
    unfolding s using rc(4) by (simp add: total_line_def)
  have 4: "sum_list (map (rows_on_disk ?fs) (removeAll combined_file ?files)) =
             sum_list (map nrows ?acc)
           \<and> length ?files = length ?acc + 1"
    if f: "glob_parquet fs0 = []"
  proof -
    let ?ws = "written env ADME adme_datasets @ written env Tox tox_datasets
                 @ [(combined_file, Parquet ?c)]"
    note fd = fresh_directory [OF output_names_distinct f rc(5), where c = ?c, folded fs]
    have "sum_list (map (rows_on_disk ?fs) ?files) = sum_list (map (rows_on_disk ?fs) (map fst ?ws))"
      by (simp add: sum_list_sort fd(1))
    also have "\<dots> = sum_list (map nrows ?acc) + nrows ?c"
      unfolding fd(2) by (simp add: fetch_all_eq [OF rc(5)])
    finally have "sum_list (map (rows_on_disk ?fs) ?files) = sum_list (map nrows ?acc) + nrows ?c" .
    moreover have "nrows ?c = sum_list (map nrows ?acc)"
      by (simp add: nrows_combined_table kept_fetch_all)
    ultimately have a: "sum_list (map (rows_on_disk ?fs) (removeAll combined_file ?files)) =
             sum_list (map nrows ?acc)"
      using s 2 by simp
    have "length ?files = length ?ws" by (simp add: fd(1))
    also have "\<dots> = length ?acc + 1" by (simp add: length_written fetch_all_eq [OF rc(5)])
    finally show ?thesis using a by simp
  qed
  show ?thesis
    unfolding Let_def acc using 1 2 3 4 by blast
qed

lemma run_written:
  assumes "mkdir_error env = None"
    and "snd (fetch_loops env adme tox fs0) = None"
    and "all_datasets (fetch_all env adme tox fs0) \<noteq> []"
    and "write_error env combined_file
           (combined_table env (all_datasets (fetch_all env adme tox fs0))) = None"
  shows "run env adme tox fs0 =
           (case reporter
              (print (combined_line (nrows (combined_table env (all_datasets (fetch_all env adme tox fs0)))))
                ((banner_nl ''Creating combined dataset...'' (fetch_all env adme tox fs0))
                   \<lparr>brick := AList.update combined_file
                       (Parquet (combined_table env (all_datasets (fetch_all env adme tox fs0))))
                       (brick (fetch_all env adme tox fs0))\<rparr>))
            of (st2, r) \<Rightarrow> (st2, map_option Exception r))"
proof -
  have inv: "\<forall>df \<in> set (all_datasets (fetch_all env adme tox fs0)). distinct (labels df)"
    using fetch_all_inv(1) by blast
  show ?thesis
    using assms(3,4)
    by (simp add: run_complete [OF assms(1,2)] combiner_eq [OF inv] Let_def kept_fetch_all)
qed

lemma fetched_mock_adme: "fetched mock_env ADME adme_datasets = [mock_annotated]"
  by (simp add: fetched_def adme_datasets_def item_result_mock item_result_mock_other)

lemma fetched_mock_tox: "fetched mock_env Tox tox_datasets = []"
  by (simp add: fetched_def tox_datasets_def item_result_mock_other)

lemma accumulator_mock:
  "all_datasets (fetch_all mock_env adme_datasets tox_datasets fs0) = [mock_annotated]"
  by (simp add: fetch_all_eq loops_mock fetched_mock_adme fetched_mock_tox)

lemma drop_index_mock_annotated: "drop_index mock_annotated = mock_annotated"
  by (simp add: drop_index_def nrows_def range_index_def mock_annotated_def upt_rec)

lemma written_mock_adme:
  "written mock_env ADME adme_datasets = [(''adme_caco2_wang.parquet'', Parquet mock_annotated)]"
  by (simp add: written_def adme_datasets_def item_result_mock item_result_mock_other
      drop_index_mock_annotated output_name_def lower_Caco2)

lemma written_mock_tox: "written mock_env Tox tox_datasets = []"
  by (simp add: written_def tox_datasets_def item_result_mock_other)

lemma brick_mock:
  "brick (fetch_all mock_env adme_datasets tox_datasets []) =
     [(''adme_caco2_wang.parquet'', Parquet mock_annotated)]"
proof -
  have "glob_parquet ([] :: (string \<times> nat disk_file) list) = []" by (simp add: glob_parquet_def)
  then show ?thesis
    using brick_fetch_all_fresh [OF output_names_distinct _ loops_mock, of "[]"]
    by (simp add: written_mock_adme written_mock_tox)
qed

lemma main_mock_completes: "snd (main mock_env []) = None"
proof -
  let ?c = "combined_table mock_env [mock_annotated]"
  let ?fs = "[(''adme_caco2_wang.parquet'', Parquet mock_annotated), (combined_file, Parquet ?c)]"
  have g: "glob_parquet ?fs = [''adme_caco2_wang.parquet'', combined_file]"
    by (simp add: glob_parquet_def ends_with_combined) (simp add: ends_with_def combined_file_def)
  have s: "sort [''adme_caco2_wang.parquet'', combined_file] =
             [''adme_caco2_wang.parquet'', combined_file]"
    by (simp add: combined_file_def)
  have r: "readable ?fs ''adme_caco2_wang.parquet''" "readable ?fs combined_file"
    by (simp_all add: readable_def read_error_def read_parquet_def)
  have u: "''adme_caco2_wang.parquet'' \<noteq> combined_file"
    by (simp add: combined_file_def)
  have "main mock_env [] =
          (case reporter (print (combined_line (nrows ?c))
            ((banner_nl ''Creating combined dataset...''
                (fetch_all mock_env adme_datasets tox_datasets []))\<lparr>brick := ?fs\<rparr>))
           of (st2, r) \<Rightarrow> (st2, map_option Exception r))"
    unfolding main_def
    using run_written [OF mkdir_mock loops_mock, of adme_datasets tox_datasets "[]"]
    by (simp add: accumulator_mock write_error_mock brick_mock u)
  then show ?thesis
    by (simp add: reporter_eq Let_def g s first_read_error_def r)
qed

lemma str_nat_6: "str_nat 6 = ''6''"
  by code_simp

theorem total_counts_combined_twice_witness:
  "all_datasets (fst (main mock_env [])) = [mock_annotated]
   \<and> combined_file \<in> set (sort (glob_parquet (brick (fst (main mock_env [])))))
   \<and> rows_on_disk (brick (fst (main mock_env []))) combined_file = 3
   \<and> length (sort (glob_parquet (brick (fst (main mock_env []))))) = 2
   \<and> last (console (fst (main mock_env []))) = nl # ''Total: 6 records across 2 files''"
proof -
  let ?fs = "brick (fst (main mock_env []))"
  let ?files = "sort (glob_parquet ?fs)"
  have a: "all_datasets (fst (main mock_env [])) = [mock_annotated]"
    by (simp add: main_def all_datasets_run mkdir_mock accumulator_mock)
  then have ne: "all_datasets (fst (main mock_env [])) \<noteq> []" by simp
  have g: "glob_parquet ([] :: (string \<times> nat disk_file) list) = []" by (simp add: glob_parquet_def)
  note t = total_counts_combined_twice [OF main_mock_completes ne, unfolded Let_def a]
  from t have 1: "combined_file \<in> set ?files" by blast
  from t have 2: "rows_on_disk ?fs combined_file = 3"
    by (simp add: nrows_mock_annotated)
  from t g have 3: "sum_list (map (rows_on_disk ?fs) (removeAll combined_file ?files)) = 3"
    and 4: "length ?files = 2"
    by (simp_all add: nrows_mock_annotated)
  from t have "last (console (fst (main mock_env []))) =
      nl # ''Total: ''
        @ str_nat (sum_list (map (rows_on_disk ?fs) (removeAll combined_file ?files))
                     + rows_on_disk ?fs combined_file)
        @ '' records across '' @ str_nat (length ?files) @ '' files''"
    by blast
  then have 5: "last (console (fst (main mock_env []))) = nl # ''Total: 6 records across 2 files''"
    unfolding 2 3 4 by (simp add: str_nat_6 str_nat_2)
  show ?thesis using a 1 2 4 5 by (intro conjI)
qed

section \<open>The end-to-end scenario\<close>

lemma nrows_scenario_file: "nrows (scenario_file ids drugs ys) = 3"
  by (simp add: scenario_file_def nrows_def)

lemma labels_scenario_file:
  "labels (scenario_file ids drugs ys) = [''drug_id'', ''drug'', ''y'', ''dataset'', ''category'']"
  by (simp add: scenario_file_def labels_def)

lemma drop_index_scenario_file:
  "drop_index (scenario_file ids drugs ys) = scenario_file ids drugs ys"
  by (simp add: drop_index_def nrows_scenario_file) (simp add: scenario_file_def range_index_def upt_rec numeral_3_eq_3)

lemma loops_scenario:
  assumes "w ''adme_caco2_wang.parquet'' (scenario_file [a1, a2, a3] [b1, b2, b3] [y1, y2, y3]) = None"
  shows "snd (fetch_loops (scenario_env f e w (scenario_table [a1, a2, a3] [b1, b2, b3] [y1, y2, y3]))
     [''Caco2_Wang'', ''PAMPA_NCATS''] [] fs0) = None"
  by (simp add: fetch_loops_snd escaping_def item_result_scenario [where w = w, OF assms]
      item_result_scenario_other)

lemma fetch_all_scenario:
  assumes "w ''adme_caco2_wang.parquet'' (scenario_file [a1, a2, a3] [b1, b2, b3] [y1, y2, y3]) = None"
  shows "fetch_all (scenario_env f e w (scenario_table [a1, a2, a3] [b1, b2, b3] [y1, y2, y3]))
     [''Caco2_Wang'', ''PAMPA_NCATS''] [] [] =
     \<lparr>brick = [(''adme_caco2_wang.parquet'',
                 Parquet (scenario_file [a1, a2, a3] [b1, b2, b3] [y1, y2, y3]))],
      console = [rule60, ''Downloading ADME datasets from TDC...'', rule60,
                 processing_line ADME ''Caco2_Wang'',
                 saved_line 3 ''adme_caco2_wang.parquet'',
                 processing_line ADME ''PAMPA_NCATS'',
                 error_line e,
                 nl # rule60, ''Downloading Toxicity datasets from TDC...'', rule60],
      all_datasets = [scenario_file [a1, a2, a3] [b1, b2, b3] [y1, y2, y3]]\<rparr>"
  by (simp add: fetch_all_eq [OF loops_scenario [where w = w, OF assms]] fetched_def
      item_lines_def write_item_def item_result_scenario [where w = w, OF assms]
      item_result_scenario_other drop_index_scenario_file nrows_scenario_file
      output_name_Caco2)

lemma projection_scenario_file:
  "projection (scenario_env f e w t) (scenario_file ids drugs ys) =
     scenario_file (map (astype_str f) ids) drugs ys"
  by (simp add: projection_def available_cols_def cols_to_keep_def labels_scenario_file)
    (simp add: scenario_file_def select_cols_def drug_id_to_str_def labels_def scenario_env_def)

lemma combined_table_scenario:
  "combined_table (scenario_env f e w t) [scenario_file ids drugs ys] =
     scenario_file (map (astype_str f) ids) drugs ys"
proof -
  have k: "kept [scenario_file ids drugs ys] = [scenario_file ids drugs ys]"
    by (simp add: kept_def available_cols_def labels_scenario_file cols_to_keep_def)
  have a: "available_cols (scenario_file ids drugs ys) =
             [''drug_id'', ''drug'', ''y'', ''dataset'', ''category'']"
    by (simp add: available_cols_def labels_scenario_file cols_to_keep_def)
  show ?thesis
    unfolding combined_table_def k
    by (simp add: a projection_scenario_file nrows_scenario_file)
      (simp add: scenario_file_def column_or_nan_def column_def range_index_def upt_rec
        numeral_3_eq_3)
qed

lemma run_scenario:
  assumes "w ''adme_caco2_wang.parquet'' (scenario_file [a1, a2, a3] [b1, b2, b3] [y1, y2, y3]) = None"
    and "w ''tdc_admet_combined.parquet''
           (scenario_file [astype_str f a1, astype_str f a2, astype_str f a3] [b1, b2, b3]
              [y1, y2, y3]) = None"
  shows "run (scenario_env f e w (scenario_table [a1, a2, a3] [b1, b2, b3] [y1, y2, y3]))
     [''Caco2_Wang'', ''PAMPA_NCATS''] [] [] =
     (\<lparr>brick = [(''adme_caco2_wang.parquet'',
                  Parquet (scenario_file [a1, a2, a3] [b1, b2, b3] [y1, y2, y3])),
                 (''tdc_admet_combined.parquet'',
                  Parquet (scenario_file [astype_str f a1, astype_str f a2, astype_str f a3]
                             [b1, b2, b3] [y1, y2, y3]))],
       console = [rule60, ''Downloading ADME datasets from TDC...'', rule60,
                  processing_line ADME ''Caco2_Wang'',
                  saved_line 3 ''adme_caco2_wang.parquet'',
                  processing_line ADME ''PAMPA_NCATS'',
                  error_line e,
                  nl # rule60, ''Downloading Toxicity datasets from TDC...'', rule60,
                  nl # rule60, ''Creating combined dataset...'', rule60,
                  combined_line 3,
                  nl # rule60, ''Output files:'', rule60,
                  file_line ''adme_caco2_wang.parquet'' 3,
                  file_line ''tdc_admet_combined.parquet'' 3,
                  total_line 6 2],
       all_datasets = [scenario_file [a1, a2, a3] [b1, b2, b3] [y1, y2, y3]]\<rparr>,
      None)"
proof -
  let ?env = "scenario_env f e w (scenario_table [a1, a2, a3] [b1, b2, b3] [y1, y2, y3])"
  let ?a = "scenario_file [a1, a2, a3] [b1, b2, b3] [y1, y2, y3]"
  let ?c = "scenario_file [astype_str f a1, astype_str f a2, astype_str f a3] [b1, b2, b3]
              [y1, y2, y3]"
  let ?fs = "[(''adme_caco2_wang.parquet'', Parquet ?a),
              (''tdc_admet_combined.parquet'', Parquet ?c)]"
  have m: "mkdir_error ?env = None" and w: "write_error ?env = w"
    by (simp_all add: scenario_env_def)
  note l = loops_scenario [where w = w and f = f and e = e and ?fs0.0 = "[]", OF assms(1)]
  note fa = fetch_all_scenario [where w = w and f = f and e = e, OF assms(1)]
  have g: "glob_parquet ?fs = [''adme_caco2_wang.parquet'', ''tdc_admet_combined.parquet'']"
    by (simp add: glob_parquet_def ends_with_def)
  have s: "sort [''adme_caco2_wang.parquet'', ''tdc_admet_combined.parquet''] =
             [''adme_caco2_wang.parquet'', ''tdc_admet_combined.parquet'']"
    by simp
  have r: "read_parquet ?fs ''adme_caco2_wang.parquet'' = Inr ?a"
    "read_parquet ?fs ''tdc_admet_combined.parquet'' = Inr ?c"
    by (simp_all add: read_parquet_def)
  have rd: "readable ?fs ''adme_caco2_wang.parquet''" "readable ?fs ''tdc_admet_combined.parquet''"
    by (simp_all add: readable_def read_error_def r)
  have rows: "rows_on_disk ?fs ''adme_caco2_wang.parquet'' = 3"
    "rows_on_disk ?fs ''tdc_admet_combined.parquet'' = 3"
    by (simp_all add: rows_on_disk_def r nrows_scenario_file)
  have "run ?env [''Caco2_Wang'', ''PAMPA_NCATS''] [] [] =
          (case reporter
            (print (combined_line 3)
               ((banner_nl ''Creating combined dataset...''
                   (fetch_all ?env [''Caco2_Wang'', ''PAMPA_NCATS''] [] []))\<lparr>brick := ?fs\<rparr>))
           of (st2, r) \<Rightarrow> (st2, map_option Exception r))"
    using run_written [OF m l] assms(2)
    by (simp add: w fa combined_table_scenario nrows_scenario_file combined_file_def)
  then show ?thesis
    by (simp add: reporter_eq Let_def g s first_read_error_def rd report_lines_def rows
        fa banner_nl_def print_def numeral_2_eq_2 [symmetric])
qed

lemma scenario_lines:
  shows "processing_line ADME ''Caco2_Wang'' = nl # ''Processing ADME/Caco2_Wang...''"
    and "processing_line ADME ''PAMPA_NCATS'' = nl # ''Processing ADME/PAMPA_NCATS...''"
    and "saved_line 3 ''adme_caco2_wang.parquet'' =
           ''  - Saved 3 records to brick/adme_caco2_wang.parquet''"
    and "error_line e = ''  - Error: '' @ e"
    and "combined_line 3 = nl # ''Combined dataset: 3 total records''"
    and "file_line ''adme_caco2_wang.parquet'' 3 = ''  - adme_caco2_wang.parquet: 3 rows''"
    and "file_line ''tdc_admet_combined.parquet'' 3 = ''  - tdc_admet_combined.parquet: 3 rows''"
    and "total_line 6 2 = nl # ''Total: 6 records across 2 files''"
    and "rule60 = replicate 60 (CHR ''='')"
  by (simp_all add: processing_line_def saved_line_def error_line_def combined_line_def
      file_line_def total_line_def str_nat_3 str_nat_6 str_nat_2 rule60_def)

text \<open>
  C5, as amended. The scenario: the ADME list is the two names \<^verbatim>\<open>Caco2_Wang\<close> and
  \<^verbatim>\<open>PAMPA_NCATS\<close>, the Toxicity list is empty, the directory is empty; the provider
  returns a table of three rows with the columns \<^verbatim>\<open>Drug_ID\<close>, \<^verbatim>\<open>Drug\<close>, \<^verbatim>\<open>Y\<close>
  for the first name and fails with an \<^verbatim>\<open>Exception\<close> for the second; the write of
  the dataset's file and the write of the combined file raise nothing. The run completes
  with two files: the file of the first dataset, three rows and the columns
  \<^verbatim>\<open>drug_id\<close>, \<^verbatim>\<open>drug\<close>, \<^verbatim>\<open>y\<close>, \<^verbatim>\<open>dataset\<close>, \<^verbatim>\<open>category\<close>, and the
  combined file, the same three rows with \<^verbatim>\<open>drug_id\<close> as text. The console reports
  the failure of the second name and a total of 6 records across 2 files.
\<close>

theorem scenario_end_to_end:
  assumes "w ''adme_caco2_wang.parquet'' (scenario_file [a1, a2, a3] [b1, b2, b3] [y1, y2, y3]) = None"
    and "w ''tdc_admet_combined.parquet''
           (scenario_file [astype_str f a1, astype_str f a2, astype_str f a3] [b1, b2, b3]
              [y1, y2, y3]) = None"
  shows "run (scenario_env f e w (scenario_table [a1, a2, a3] [b1, b2, b3] [y1, y2, y3]))
     [''Caco2_Wang'', ''PAMPA_NCATS''] [] [] =
     (\<lparr>brick = [(''adme_caco2_wang.parquet'',
                  Parquet (scenario_file [a1, a2, a3] [b1, b2, b3] [y1, y2, y3])),
                 (''tdc_admet_combined.parquet'',
                  Parquet (scenario_file [astype_str f a1, astype_str f a2, astype_str f a3]
                             [b1, b2, b3] [y1, y2, y3]))],
       console = [replicate 60 (CHR ''=''), ''Downloading ADME datasets from TDC...'',
                  replicate 60 (CHR ''=''),
                  nl # ''Processing ADME/Caco2_Wang...'',
                  ''  - Saved 3 records to brick/adme_caco2_wang.parquet'',
                  nl # ''Processing ADME/PAMPA_NCATS...'',
                  ''  - Error: '' @ e,
                  nl # replicate 60 (CHR ''=''), ''Downloading Toxicity datasets from TDC...'',
                  replicate 60 (CHR ''=''),
                  nl # replicate 60 (CHR ''=''), ''Creating combined dataset...'',
                  replicate 60 (CHR ''=''),
                  nl # ''Combined dataset: 3 total records'',
                  nl # replicate 60 (CHR ''=''), ''Output files:'', replicate 60 (CHR ''=''),
                  ''  - adme_caco2_wang.parquet: 3 rows'',
                  ''  - tdc_admet_combined.parquet: 3 rows'',
                  nl # ''Total: 6 records across 2 files''],
       all_datasets = [scenario_file [a1, a2, a3] [b1, b2, b3] [y1, y2, y3]]\<rparr>,
      None)
   \<and> nrows (scenario_file [a1, a2, a3] [b1, b2, b3] [y1, y2, y3]) = 3
   \<and> labels (scenario_file [a1, a2, a3] [b1, b2, b3] [y1, y2, y3]) =
       [''drug_id'', ''drug'', ''y'', ''dataset'', ''category'']
   \<and> nrows (scenario_file [astype_str f a1, astype_str f a2, astype_str f a3] [b1, b2, b3]
              [y1, y2, y3]) = 3
   \<and> labels (scenario_file [astype_str f a1, astype_str f a2, astype_str f a3] [b1, b2, b3]
               [y1, y2, y3]) =
       [''drug_id'', ''drug'', ''y'', ''dataset'', ''category'']"
  unfolding run_scenario [where w = w, OF assms] scenario_lines
  by (simp only: nrows_scenario_file labels_scenario_file simp_thms)

theorem scenario_end_to_end_witness:
  "run mock_env [''Caco2_Wang'', ''PAMPA_NCATS''] [] [] =
     (\<lparr>brick = [(''adme_caco2_wang.parquet'', Parquet mock_annotated),
                 (''tdc_admet_combined.parquet'', Parquet mock_annotated)],
       console = [replicate 60 (CHR ''=''), ''Downloading ADME datasets from TDC...'',
                  replicate 60 (CHR ''=''),
                  nl # ''Processing ADME/Caco2_Wang...'',
                  ''  - Saved 3 records to brick/adme_caco2_wang.parquet'',
                  nl # ''Processing ADME/PAMPA_NCATS...'',
                  ''  - Error: fetch failed'',
                  nl # replicate 60 (CHR ''=''), ''Downloading Toxicity datasets from TDC...'',
                  replicate 60 (CHR ''=''),
                  nl # replicate 60 (CHR ''=''), ''Creating combined dataset...'',
                  replicate 60 (CHR ''=''),
                  nl # ''Combined dataset: 3 total records'',
                  nl # replicate 60 (CHR ''=''), ''Output files:'', replicate 60 (CHR ''=''),
                  ''  - adme_caco2_wang.parquet: 3 rows'',
                  ''  - tdc_admet_combined.parquet: 3 rows'',
                  nl # ''Total: 6 records across 2 files''],
       all_datasets = [mock_annotated]\<rparr>,
      None)
   \<and> nrows mock_annotated = 3
   \<and> labels mock_annotated = [''drug_id'', ''drug'', ''y'', ''dataset'', ''category'']"
proof -
  have w: "(\<lambda>p df. None :: raised option) p (df :: nat table) = None" for p df
    by simp
  have a: "scenario_file [Text ''D1'', Text ''D2'', Text ''D3''] [Text ''C'', Text ''CC'', Text ''CCO'']
             [Val 1, Val 0, Val 1] = mock_annotated"
    by (simp add: scenario_file_def mock_annotated_def)
  note t = scenario_end_to_end [where w = "\<lambda>p df. None" and f = str_nat and e = "''fetch failed''"
      and ?a1.0 = "Text ''D1''" and ?a2.0 = "Text ''D2''" and ?a3.0 = "Text ''D3''"
      and ?b1.0 = "Text ''C''" and ?b2.0 = "Text ''CC''" and ?b3.0 = "Text ''CCO''"
      and ?y1.0 = "Val 1" and ?y2.0 = "Val 0" and ?y3.0 = "Val 1", OF w w]
  show ?thesis
    using t unfolding astype_str.simps a
    by (simp add: mock_env_def mock_table_def)
qed

text \<open>
  C5 as stated fails: the reporter also counts the three rows of the combined file, so the
  total it prints in the scenario is 6, not 3.
\<close>

theorem scenario_total_counterexample:
  "last (console (fst (run mock_env [''Caco2_Wang'', ''PAMPA_NCATS''] [] []))) =
     nl # ''Total: 6 records across 2 files''
   \<and> last (console (fst (run mock_env [''Caco2_Wang'', ''PAMPA_NCATS''] [] []))) \<noteq>
     nl # ''Total: 3 records across 2 files''"
  unfolding mock_env_def mock_table_def
  by (simp add: run_scenario scenario_lines(8))

end
